theory Spec2Isabelle
  imports Main
begin

section \<open>The book service: data model\<close>

text \<open>
  The service of \<^verbatim>\<open>main.go\<close> keeps one table of books in PostgreSQL and serves it
  over HTTP. The Go struct \<^verbatim>\<open>Book\<close> becomes a record. \<^verbatim>\<open>ID\<close> is an \<^verbatim>\<open>int64\<close> and
  \<^verbatim>\<open>Year\<close> an \<^verbatim>\<open>int\<close>; the program never computes with them, so they are integers
  here, and the only place where the 64-bit range decides anything (the parsing of
  an identifier) checks it explicitly.
\<close>

record Book =
  ID :: int
  Title :: string
  Author :: string
  Year :: int

section \<open>The path-ID extractor\<close>

subsection \<open>The scanner of the standard library\<close>

text \<open>
  \<^verbatim>\<open>parseIDFromURL\<close> reads the identifier with \<^verbatim>\<open>fmt.Sscan(parts[2], &id)\<close>, where
  \<^verbatim>\<open>id\<close> is an \<^verbatim>\<open>int64\<close>. The scanner is Go's (package \<^verbatim>\<open>fmt\<close>, file \<^verbatim>\<open>scan.go\<close>):
  it skips leading white space, accepts one sign, looks for a base prefix, collects
  the characters of the number and hands the token to \<^verbatim>\<open>strconv.ParseInt\<close> with base
  0 and 64 bits. It does not look at what follows the token. The scanner state is
  the token buffer and the unread input.
\<close>

type_synonym ss = "string \<times> string"

definition sign :: string where
  "sign = ''+-''"

definition binaryDigits :: string where
  "binaryDigits = ''01''"

definition octalDigits :: string where
  "octalDigits = ''01234567''"

definition decimalDigits :: string where
  "decimalDigits = ''0123456789''"

definition hexadecimalDigits :: string where
  "hexadecimalDigits = ''0123456789aAbBcCdDeEfF''"

text \<open>
  \<^verbatim>\<open>isSpace\<close> of \<^verbatim>\<open>scan.go\<close> knows the runes U+0009 to U+000D, U+0020, U+0085,
  U+00A0, U+1680, U+2000 to U+200A, U+2028, U+2029, U+202F, U+205F and U+3000. A Go
  string is a sequence of bytes, read as UTF-8: \<open>space_width\<close> is the number of
  bytes of the space rune at the front of the input, or 0 when there is none.
\<close>

definition space_width :: "string \<Rightarrow> nat" where
  "space_width s =
     (case map (of_char :: char \<Rightarrow> nat) (take 3 s) of
        [] \<Rightarrow> 0
      | b0 # bs \<Rightarrow>
          if (9 \<le> b0 \<and> b0 \<le> 13) \<or> b0 = 32 then 1
          else (case bs of
                  [] \<Rightarrow> 0
                | b1 # bs' \<Rightarrow>
                    if b0 = 0xC2 \<and> (b1 = 0x85 \<or> b1 = 0xA0) then 2
                    else (case bs' of
                            [] \<Rightarrow> 0
                          | b2 # _ \<Rightarrow>
                              if (b0 = 0xE1 \<and> b1 = 0x9A \<and> b2 = 0x80)
                                \<or> (b0 = 0xE2 \<and> b1 = 0x80 \<and> 0x80 \<le> b2 \<and> b2 \<le> 0x8A)
                                \<or> (b0 = 0xE2 \<and> b1 = 0x80 \<and> (b2 = 0xA8 \<or> b2 = 0xA9 \<or> b2 = 0xAF))
                                \<or> (b0 = 0xE2 \<and> b1 = 0x81 \<and> b2 = 0x9F)
                                \<or> (b0 = 0xE3 \<and> b1 = 0x80 \<and> b2 = 0x80)
                              then 3 else 0)))"

text \<open>\<^verbatim>\<open>SkipSpace\<close> with \<^verbatim>\<open>nlIsSpace\<close> set, as \<^verbatim>\<open>Sscan\<close> sets it: newlines are spaces.\<close>

fun SkipSpace :: "string \<Rightarrow> string" where
  "SkipSpace [] = []"
| "SkipSpace (c # cs) =
     (if space_width (c # cs) = 1 then SkipSpace cs
      else if space_width (c # cs) = 2 then SkipSpace (drop 1 cs)
      else if space_width (c # cs) = 3 then SkipSpace (drop 2 cs)
      else c # cs)"

definition peek :: "string \<Rightarrow> ss \<Rightarrow> bool" where
  "peek ok s = (case snd s of [] \<Rightarrow> False | c # _ \<Rightarrow> c \<in> set ok)"

definition accept :: "string \<Rightarrow> ss \<Rightarrow> bool \<times> ss" where
  "accept ok s =
     (case snd s of
        [] \<Rightarrow> (False, s)
      | c # cs \<Rightarrow> if c \<in> set ok then (True, (fst s @ [c], cs)) else (False, s))"

text \<open>The loop \<^verbatim>\<open>for s.accept(digits) {}\<close> of \<^verbatim>\<open>scanNumber\<close>.\<close>

fun accept_all :: "string \<Rightarrow> string \<Rightarrow> string \<Rightarrow> ss" where
  "accept_all ok buf [] = (buf, [])"
| "accept_all ok buf (c # cs) =
     (if c \<in> set ok then accept_all ok (buf @ [c]) cs else (buf, c # cs))"

text \<open>
  \<^verbatim>\<open>scanBasePrefix\<close>, called because the verb is \<^verbatim>\<open>%v\<close>: the digits to accept and
  whether a zero was found (the base it returns is always 0).
\<close>

definition scanBasePrefix :: "ss \<Rightarrow> (string \<times> bool) \<times> ss" where
  "scanBasePrefix s =
     (if \<not> peek ''0'' s then ((decimalDigits @ ''_'', False), s)
      else
        let s1 = snd (accept ''0'' s) in
        if peek ''bB'' s1 then ((binaryDigits @ ''_'', True), snd (accept ''bB'' s1))
        else if peek ''oO'' s1 then ((octalDigits @ ''_'', True), snd (accept ''oO'' s1))
        else if peek ''xX'' s1 then ((hexadecimalDigits @ ''_'', True), snd (accept ''xX'' s1))
        else ((octalDigits @ ''_'', True), s1))"

datatype num_error = ErrSyntax | ErrRange

datatype scan_error = EOF | ExpectedInteger | NumError num_error

definition scanNumber :: "string \<Rightarrow> bool \<Rightarrow> ss \<Rightarrow> scan_error + string" where
  "scanNumber digits haveDigits s =
     (if \<not> haveDigits then
        (if snd s = [] then Inl EOF
         else
           (case accept digits s of
              (False, _) \<Rightarrow> Inl ExpectedInteger
            | (True, s1) \<Rightarrow> Inr (fst (accept_all digits (fst s1) (snd s1)))))
      else Inr (fst (accept_all digits (fst s) (snd s))))"

subsection \<open>strconv.ParseInt with base 0 and 64 bits\<close>

text \<open>
  The value of a digit in \<^verbatim>\<open>ParseUint\<close>: \<^verbatim>\<open>'0'\<close> to \<^verbatim>\<open>'9'\<close>, or a letter whose
  lower-case form \<^verbatim>\<open>c | 0x20\<close> lies between \<^verbatim>\<open>'a'\<close> and \<^verbatim>\<open>'z'\<close>.
\<close>

definition digit_of :: "char \<Rightarrow> nat option" where
  "digit_of c =
     (let b = (of_char c :: nat) in
      if 48 \<le> b \<and> b \<le> 57 then Some (b - 48)
      else if 97 \<le> b \<and> b \<le> 122 then Some (b - 97 + 10)
      else if 65 \<le> b \<and> b \<le> 90 then Some (b - 65 + 10)
      else None)"

definition maxUint64 :: nat where
  "maxUint64 = 2 ^ 64 - 1"

text \<open>
  The digit loop of \<^verbatim>\<open>ParseUint\<close>. \<open>n\<close> is a \<^verbatim>\<open>uint64\<close>: the code refuses to
  multiply once \<open>n\<close> has reached the cutoff \<^verbatim>\<open>maxUint64/base + 1\<close>, and it detects
  the wrap-around of \<^verbatim>\<open>n + d\<close>, so the natural number computed here is the word the
  code holds. The flag records an underscore.
\<close>

fun parse_digits :: "nat \<Rightarrow> nat \<Rightarrow> bool \<Rightarrow> string \<Rightarrow> num_error + (nat \<times> bool)" where
  "parse_digits base n us [] = Inr (n, us)"
| "parse_digits base n us (c # cs) =
     (if c = CHR ''_'' then parse_digits base n True cs
      else
        (case digit_of c of
           None \<Rightarrow> Inl ErrSyntax
         | Some d \<Rightarrow>
             if d \<ge> base then Inl ErrSyntax
             else if n \<ge> maxUint64 div base + 1 then Inl ErrRange
             else if n * base + d > maxUint64 then Inl ErrRange
             else parse_digits base (n * base + d) us cs))"

text \<open>\<^verbatim>\<open>underscoreOK\<close>: underscores only between digits, or between a prefix and a digit.\<close>

fun underscore_scan :: "bool \<Rightarrow> char \<Rightarrow> string \<Rightarrow> bool" where
  "underscore_scan hex saw [] = (saw \<noteq> CHR ''_'')"
| "underscore_scan hex saw (c # cs) =
     (if c \<in> set decimalDigits \<or> (hex \<and> c \<in> set ''aAbBcCdDeEfF'')
      then underscore_scan hex (CHR ''0'') cs
      else if c = CHR ''_'' then
        (if saw \<noteq> CHR ''0'' then False else underscore_scan hex (CHR ''_'') cs)
      else if saw = CHR ''_'' then False
      else underscore_scan hex (CHR ''!'') cs)"

definition underscoreOK :: "string \<Rightarrow> bool" where
  "underscoreOK s0 =
     (let s = (if s0 \<noteq> [] \<and> (hd s0 = CHR ''-'' \<or> hd s0 = CHR ''+'') then tl s0 else s0) in
      if length s \<ge> 2 \<and> hd s = CHR ''0'' \<and> s ! 1 \<in> set ''bBoOxX''
      then underscore_scan (s ! 1 \<in> set ''xX'') (CHR ''0'') (drop 2 s)
      else underscore_scan False (CHR ''^'') s)"

definition ParseUint :: "string \<Rightarrow> num_error + nat" where
  "ParseUint s0 =
     (if s0 = [] then Inl ErrSyntax
      else
        let (base, s) =
              (if hd s0 = CHR ''0'' then
                 (if length s0 \<ge> 3 \<and> s0 ! 1 \<in> set ''bB'' then (2, drop 2 s0)
                  else if length s0 \<ge> 3 \<and> s0 ! 1 \<in> set ''oO'' then (8, drop 2 s0)
                  else if length s0 \<ge> 3 \<and> s0 ! 1 \<in> set ''xX'' then (16, drop 2 s0)
                  else (8, drop 1 s0))
               else (10, s0))
        in
        (case parse_digits base 0 False s of
           Inl e \<Rightarrow> Inl e
         | Inr (n, us) \<Rightarrow> if us \<and> \<not> underscoreOK s0 then Inl ErrSyntax else Inr n))"

text \<open>
  \<^verbatim>\<open>ParseInt\<close>: a range error of \<^verbatim>\<open>ParseUint\<close> comes with the value \<^verbatim>\<open>maxUint64\<close>
  and is reported as a range error again by the cutoff test.
\<close>

definition ParseInt :: "string \<Rightarrow> num_error + int" where
  "ParseInt s0 =
     (if s0 = [] then Inl ErrSyntax
      else
        let neg = (hd s0 = CHR ''-'');
            s = (if hd s0 = CHR ''+'' \<or> hd s0 = CHR ''-'' then tl s0 else s0)
        in
        (case ParseUint s of
           Inl ErrSyntax \<Rightarrow> Inl ErrSyntax
         | r \<Rightarrow>
             let un = (case r of Inr u \<Rightarrow> u | Inl _ \<Rightarrow> maxUint64) in
             if \<not> neg \<and> un \<ge> 2 ^ 63 then Inl ErrRange
             else if neg \<and> un > 2 ^ 63 then Inl ErrRange
             else Inr (if neg then - int un else int un)))"

subsection \<open>Scanning an int64\<close>

definition scanInt :: "ss \<Rightarrow> scan_error + int" where
  "scanInt s0 =
     (let s1 = (fst s0, SkipSpace (snd s0)) in
      if snd s1 = [] then Inl EOF
      else
        let s2 = snd (accept sign s1);
            ((digits, haveDigits), s3) = scanBasePrefix s2
        in
        (case scanNumber digits haveDigits s3 of
           Inl e \<Rightarrow> Inl e
         | Inr tok \<Rightarrow>
             (case ParseInt tok of
                Inl e \<Rightarrow> Inl (NumError e)
              | Inr i \<Rightarrow> Inr i)))"

definition Sscan :: "string \<Rightarrow> scan_error + int" where
  "Sscan str = scanInt ([], str)"

text \<open>
  Where the scanner looks for the first digit: the input after the leading white
  space and after the sign, when there is one.
\<close>

definition number_start :: "string \<Rightarrow> string" where
  "number_start str = snd (snd (accept sign ([], SkipSpace str)))"

subsection \<open>splitPath and parseIDFromURL\<close>

text \<open>
  \<^verbatim>\<open>splitPath\<close> slices the path at \<^verbatim>\<open>len("/books/")\<close> without looking at the prefix.
  The slice expression panics when the path is shorter than the seven bytes of the
  prefix: \<open>None\<close> is that panic.
\<close>

definition splitPath :: "string \<Rightarrow> string list option" where
  "splitPath path =
     (if length path < length ''/books/'' then None
      else Some [[], ''books'', drop (length ''/books/'') path])"

datatype id_error = BadPath string | ScanFailed scan_error

definition parseIDFromURL :: "string \<Rightarrow> (id_error + int) option" where
  "parseIDFromURL path =
     (case splitPath path of
        None \<Rightarrow> None
      | Some parts \<Rightarrow>
          if length parts < 3 then Some (Inl (BadPath path))
          else
            (case Sscan (parts ! 2) of
               Inl e \<Rightarrow> Some (Inl (ScanFailed e))
             | Inr i \<Rightarrow> Some (Inr i)))"

section \<open>JSON values and responses\<close>

text \<open>
  What \<^verbatim>\<open>json.NewEncoder(w).Encode\<close> writes is kept as a JSON value, not as bytes.
  A \<^verbatim>\<open>Book\<close> is written as an object with the four keys of its struct tags, in the
  order of the fields.
\<close>

datatype json =
    JNull
  | JNumber int
  | JString string
  | JArray "json list"
  | JObject "(string \<times> json) list"

definition encode_Book :: "Book \<Rightarrow> json" where
  "encode_Book b =
     JObject [(''id'', JNumber (ID b)), (''title'', JString (Title b)),
              (''author'', JString (Author b)), (''year'', JNumber (Year b))]"

text \<open>
  A Go slice is \<^verbatim>\<open>nil\<close> or holds elements. \<^verbatim>\<open>var books []Book\<close> declares the nil
  slice, \<^verbatim>\<open>append\<close> gives a slice that is not nil, and package \<^verbatim>\<open>encoding/json\<close>
  writes a nil slice as \<^verbatim>\<open>null\<close> and any other slice as an array.
\<close>

datatype 'a slice = NilSlice | Slice "'a list"

fun append_slice :: "'a slice \<Rightarrow> 'a \<Rightarrow> 'a slice" where
  "append_slice NilSlice x = Slice [x]"
| "append_slice (Slice xs) x = Slice (xs @ [x])"

fun encode_Books :: "Book slice \<Rightarrow> json" where
  "encode_Books NilSlice = JNull"
| "encode_Books (Slice bs) = JArray (map encode_Book bs)"

text \<open>
  The errors of package \<^verbatim>\<open>database/sql\<close> that the handlers tell apart:
  \<^verbatim>\<open>sql.ErrNoRows\<close>, and any other error, kept by its text.
\<close>

datatype sql_error = ErrNoRows | DriverError string

text \<open>
  The plain-text bodies, one constructor for each message of \<^verbatim>\<open>main.go\<close>; the
  formatted ones carry what \<^verbatim>\<open>%v\<close> or \<^verbatim>\<open>%d\<close> prints.
\<close>

datatype message =
    MethodNotSupported
  | InvalidJSON
  | MissingTitleOrAuthor
  | InsertFailed sql_error
  | SelectAllFailed sql_error
  | RowScanFailed sql_error
  | InvalidID
  | BookNotFound
  | SelectFailed sql_error
  | UpdateFailed sql_error
  | NoBookWithID
  | Updated int
  | DeleteFailed sql_error
  | Deleted int

datatype payload = Text message | Json json

record response =
  code :: nat
  payload :: payload

abbreviation StatusOK :: nat where
  "StatusOK \<equiv> 200"

abbreviation StatusBadRequest :: nat where
  "StatusBadRequest \<equiv> 400"

abbreviation StatusNotFound :: nat where
  "StatusNotFound \<equiv> 404"

abbreviation StatusMethodNotAllowed :: nat where
  "StatusMethodNotAllowed \<equiv> 405"

abbreviation StatusInternalServerError :: nat where
  "StatusInternalServerError \<equiv> 500"

definition http_Error :: "message \<Rightarrow> nat \<Rightarrow> response" where
  "http_Error msg c = \<lparr>code = c, payload = Text msg\<rparr>"

text \<open>
  A request, as far as the handlers read it: the method, \<^verbatim>\<open>r.URL.Path\<close>, and the
  body. The body stands for what \<^verbatim>\<open>json.NewDecoder(r.Body).Decode(&b)\<close> makes of it:
  an error, or the \<^verbatim>\<open>Book\<close> that \<^verbatim>\<open>b\<close> holds afterwards (a key the body does not
  have leaves the zero value of its field, and an \<^verbatim>\<open>id\<close> the client sent is in
  \<^verbatim>\<open>b.ID\<close>). The handlers call a body that decodes without error valid JSON.
\<close>

datatype decoding = DecodeError | Decoded Book

record request =
  Method :: string
  Path :: string
  Body :: decoding

text \<open>
  For a body that is one JSON value, what the decoder of package \<^verbatim>\<open>encoding/json\<close>
  makes of it when the target is a \<^verbatim>\<open>Book\<close>. A number is an integer literal, or a
  literal with a fraction or an exponent (\<open>VReal\<close>: its digits play no part, it
  decodes into no field of \<^verbatim>\<open>Book\<close>).
\<close>

datatype jvalue =
    VNull
  | VBool bool
  | VInt int
  | VReal
  | VString string
  | VArray "jvalue list"
  | VObject "(string \<times> jvalue) list"


text \<open>
  One member of the object: \<^verbatim>\<open>null\<close> leaves the field as it is; a value of the
  field's type is stored; any other value is an error, which the decoder notes
  (the flag becomes false) before it goes on. A key that addresses no field is
  skipped. \<^verbatim>\<open>ID\<close> is an \<^verbatim>\<open>int64\<close>, and \<^verbatim>\<open>Year\<close> an \<^verbatim>\<open>int\<close>, of 64 bits on the
  platforms the service is built for.
\<close>

definition is_int64 :: "int \<Rightarrow> bool" where
  "is_int64 n = (- (2 ^ 63) \<le> n \<and> n < 2 ^ 63)"




section \<open>The database\<close>

text \<open>
  The table \<^verbatim>\<open>books\<close> of \<^verbatim>\<open>main\<close>, with \<^verbatim>\<open>id SERIAL PRIMARY KEY\<close>: the rows, and
  the next value of the sequence behind \<^verbatim>\<open>id\<close>. The log lists the statements the
  service has sent, each with its arguments; it is what tells a handler that sent a
  statement from one that did not.
\<close>

datatype stmt =
    InsertBook string string int
  | SelectBooks
  | SelectBook int
  | UpdateBook string string int int
  | DeleteBook int

record db =
  table :: "Book list"
  next_id :: int
  log :: "stmt list"

text \<open>
  What goes wrong in the database while one request is served is an input of the
  model: the driver error the statement returns, if any (a lost connection, the
  three-second deadline, a year that the column \<^verbatim>\<open>year INT\<close> has no room for, a
  zero byte in a text); for the cursor of the list query, the row before which \<^verbatim>\<open>rows.Next\<close> stops with an
  error, and the row whose \<^verbatim>\<open>rows.Scan\<close> fails, rows counted from 0. A statement
  that fails this way has changed nothing.
\<close>

record faults =
  exec_fails :: "string option"
  next_fails :: "(nat \<times> string) option"
  scan_fails :: "(nat \<times> string) option"

definition no_faults :: faults where
  "no_faults = \<lparr>exec_fails = None, next_fails = None, scan_fails = None\<rparr>"

definition sent :: "stmt \<Rightarrow> db \<Rightarrow> db" where
  "sent q d = d\<lparr>log := log d @ [q]\<rparr>"

text \<open>
  The columns \<^verbatim>\<open>title\<close> and \<^verbatim>\<open>author\<close> are \<^verbatim>\<open>VARCHAR(255)\<close>. PostgreSQL stores a
  value of at most 255 characters as it is; of a longer one it keeps the first 255
  characters when all that follows them is spaces, and refuses the value otherwise
  (\<open>None\<close>). Characters are counted as in a database encoded in UTF-8, on the
  valid UTF-8 that the decoder delivers: a byte from 0x80 to 0xBF continues the
  character before it.
\<close>

definition is_cont :: "char \<Rightarrow> bool" where
  "is_cont c = (128 \<le> (of_char c :: nat) \<and> (of_char c :: nat) < 192)"

definition char_count :: "string \<Rightarrow> nat" where
  "char_count s = length (filter (\<lambda>c. \<not> is_cont c) s)"

fun clip :: "nat \<Rightarrow> string \<Rightarrow> string" where
  "clip n [] = []"
| "clip n (c # cs) =
     (if is_cont c then c # clip n cs
      else if n = 0 then []
      else c # clip (n - 1) cs)"

definition varchar :: "nat \<Rightarrow> string \<Rightarrow> string option" where
  "varchar n s =
     (let kept = clip n s in
      if list_all (\<lambda>c. c = CHR '' '') (drop (length kept) s) then Some kept else None)"

text \<open>
  \<^verbatim>\<open>INSERT INTO books (title, author, year) VALUES ($1, $2, $3) RETURNING id\<close>. The
  sequence of a \<^verbatim>\<open>SERIAL\<close> column runs from 1 to 2147483647, and a value it has
  given out is used up even when the row is refused; the primary key refuses an
  identifier that a row already has. The row holds the title and the author as
  their columns store them.
\<close>

definition db_insert :: "faults \<Rightarrow> string \<Rightarrow> string \<Rightarrow> int \<Rightarrow> db \<Rightarrow> (sql_error + int) \<times> db" where
  "db_insert f t a y d =
     (let d1 = sent (InsertBook t a y) d in
      case exec_fails f of
        Some e \<Rightarrow> (Inl (DriverError e), d1)
      | None \<Rightarrow>
          (case (varchar 255 t, varchar 255 a) of
             (Some t', Some a') \<Rightarrow>
               let i = next_id d1 in
               if i < 1 \<or> 2147483647 < i then (Inl (DriverError ''sequence out of range''), d1)
               else
                 let d2 = d1\<lparr>next_id := i + 1\<rparr> in
                 if i \<in> ID ` set (table d2) then (Inl (DriverError ''duplicate key''), d2)
                 else (Inr i, d2\<lparr>table := table d2 @ [\<lparr>ID = i, Title = t', Author = a', Year = y\<rparr>]\<rparr>)
           | _ \<Rightarrow> (Inl (DriverError ''value too long for type character varying(255)''), d1)))"

text \<open>
  \<^verbatim>\<open>SELECT id, title, author, year FROM books\<close>: the cursor \<^verbatim>\<open>*sql.Rows\<close> is what
  each round of \<^verbatim>\<open>rows.Next\<close> and \<^verbatim>\<open>rows.Scan\<close> yields, and what \<^verbatim>\<open>rows.Err\<close> would
  report once \<^verbatim>\<open>rows.Next\<close> has returned false.
\<close>

record Rows =
  yields :: "(sql_error + Book) list"
  Err :: "string option"

definition cursor :: "faults \<Rightarrow> Book list \<Rightarrow> Rows" where
  "cursor f bs =
     (let delivered = (case next_fails f of None \<Rightarrow> bs | Some (k, e) \<Rightarrow> take k bs);
          scan = (\<lambda>(j, b). case scan_fails f of
                               None \<Rightarrow> Inr b
                             | Some (k, e) \<Rightarrow> if j = k then Inl (DriverError e) else Inr b)
      in \<lparr>yields = map scan (enumerate 0 delivered),
          Err = (case next_fails f of
                   None \<Rightarrow> None
                 | Some (k, e) \<Rightarrow> if k \<le> length bs then Some e else None)\<rparr>)"

definition db_select_all :: "faults \<Rightarrow> db \<Rightarrow> (sql_error + Rows) \<times> db" where
  "db_select_all f d =
     (let d1 = sent SelectBooks d in
      case exec_fails f of
        Some e \<Rightarrow> (Inl (DriverError e), d1)
      | None \<Rightarrow> (Inr (cursor f (table d1)), d1))"

text \<open>\<^verbatim>\<open>SELECT id, title, author, year FROM books WHERE id = $1\<close>, read by \<^verbatim>\<open>Scan\<close>.\<close>

definition db_select :: "faults \<Rightarrow> int \<Rightarrow> db \<Rightarrow> (sql_error + Book) \<times> db" where
  "db_select f i d =
     (let d1 = sent (SelectBook i) d in
      case exec_fails f of
        Some e \<Rightarrow> (Inl (DriverError e), d1)
      | None \<Rightarrow>
          (case find (\<lambda>b. ID b = i) (table d1) of
             None \<Rightarrow> (Inl ErrNoRows, d1)
           | Some b \<Rightarrow> (Inr b, d1)))"

text \<open>
  \<^verbatim>\<open>UPDATE books SET title=$1, author=$2, year=$3 WHERE id=$4\<close>; the result is the
  number of rows affected. A row that is assigned gets the title and the author as
  their columns store them, and a value that a column refuses fails the statement.
  Where no row has the identifier nothing is assigned; a server that refuses the
  value there all the same is a statement that fails, by \<open>exec_fails\<close>.
\<close>

definition db_update :: "faults \<Rightarrow> string \<Rightarrow> string \<Rightarrow> int \<Rightarrow> int \<Rightarrow> db \<Rightarrow> (sql_error + nat) \<times> db" where
  "db_update f t a y i d =
     (let d1 = sent (UpdateBook t a y i) d in
      case exec_fails f of
        Some e \<Rightarrow> (Inl (DriverError e), d1)
      | None \<Rightarrow>
          let hit = filter (\<lambda>b. ID b = i) (table d1) in
          if hit = [] then (Inr 0, d1)
          else
            (case (varchar 255 t, varchar 255 a) of
               (Some t', Some a') \<Rightarrow>
                 (Inr (length hit),
                  d1\<lparr>table := map (\<lambda>b. if ID b = i then b\<lparr>Title := t', Author := a', Year := y\<rparr> else b)
                                 (table d1)\<rparr>)
             | _ \<Rightarrow> (Inl (DriverError ''value too long for type character varying(255)''), d1)))"

text \<open>\<^verbatim>\<open>DELETE FROM books WHERE id=$1\<close>.\<close>

definition db_delete :: "faults \<Rightarrow> int \<Rightarrow> db \<Rightarrow> (sql_error + nat) \<times> db" where
  "db_delete f i d =
     (let d1 = sent (DeleteBook i) d in
      case exec_fails f of
        Some e \<Rightarrow> (Inl (DriverError e), d1)
      | None \<Rightarrow>
          (Inr (length (filter (\<lambda>b. ID b = i) (table d1))),
           d1\<lparr>table := filter (\<lambda>b. ID b \<noteq> i) (table d1)\<rparr>))"

section \<open>The handlers\<close>

text \<open>
  A handler takes the faults of this request, the request and the database, and
  returns the response it writes and the database it leaves. The handlers under
  \<^verbatim>\<open>/books/\<close> return \<open>None\<close> when \<^verbatim>\<open>splitPath\<close> panics: the server then writes
  no response.
\<close>

text \<open>
  \<^verbatim>\<open>createBook\<close> (lines 109 to 138 of \<^verbatim>\<open>main.go\<close>): decode the body, refuse an empty
  title or author, insert, and write the book with the identifier that
  \<^verbatim>\<open>Scan(&b.ID)\<close> has stored in it.
\<close>

definition createBook :: "faults \<Rightarrow> request \<Rightarrow> db \<Rightarrow> response \<times> db" where
  "createBook f r d =
     (case Body r of
        DecodeError \<Rightarrow> (http_Error InvalidJSON StatusBadRequest, d)
      | Decoded b \<Rightarrow>
          if Title b = [] \<or> Author b = []
          then (http_Error MissingTitleOrAuthor StatusBadRequest, d)
          else
            (case db_insert f (Title b) (Author b) (Year b) d of
               (Inl err, d') \<Rightarrow> (http_Error (InsertFailed err) StatusInternalServerError, d')
             | (Inr i, d') \<Rightarrow>
                 (\<lparr>code = StatusOK, payload = Json (encode_Book (b\<lparr>ID := i\<rparr>))\<rparr>, d')))"

text \<open>
  The loop of \<^verbatim>\<open>getAllBooks\<close> over the cursor. It ends when \<^verbatim>\<open>rows.Next\<close> returns
  false; \<^verbatim>\<open>rows.Err\<close> is not called.
\<close>

fun scan_rows :: "(sql_error + Book) list \<Rightarrow> Book slice \<Rightarrow> sql_error + Book slice" where
  "scan_rows [] books = Inr books"
| "scan_rows (Inl err # rest) books = Inl err"
| "scan_rows (Inr b # rest) books = scan_rows rest (append_slice books b)"

text \<open>
  \<^verbatim>\<open>getAllBooks\<close> (lines 141 to 166): the query, the loop, and the encoding of the
  slice \<^verbatim>\<open>books\<close>, which starts as the nil slice of \<^verbatim>\<open>var books []Book\<close>.
\<close>

definition getAllBooks :: "faults \<Rightarrow> request \<Rightarrow> db \<Rightarrow> response \<times> db" where
  "getAllBooks f r d =
     (case db_select_all f d of
        (Inl err, d') \<Rightarrow> (http_Error (SelectAllFailed err) StatusInternalServerError, d')
      | (Inr rows, d') \<Rightarrow>
          (case scan_rows (yields rows) NilSlice of
             Inl err \<Rightarrow> (http_Error (RowScanFailed err) StatusInternalServerError, d')
           | Inr books \<Rightarrow> (\<lparr>code = StatusOK, payload = Json (encode_Books books)\<rparr>, d')))"

text \<open>
  \<^verbatim>\<open>getBookByID\<close> (lines 169 to 193): the identifier of the path, the query for one
  row, 404 for \<^verbatim>\<open>sql.ErrNoRows\<close>, 500 for any other error.
\<close>

definition getBookByID :: "faults \<Rightarrow> request \<Rightarrow> db \<Rightarrow> (response \<times> db) option" where
  "getBookByID f r d =
     (case parseIDFromURL (Path r) of
        None \<Rightarrow> None
      | Some (Inl err) \<Rightarrow> Some (http_Error InvalidID StatusBadRequest, d)
      | Some (Inr i) \<Rightarrow>
          (case db_select f i d of
             (Inl ErrNoRows, d') \<Rightarrow> Some (http_Error BookNotFound StatusNotFound, d')
           | (Inl err, d') \<Rightarrow> Some (http_Error (SelectFailed err) StatusInternalServerError, d')
           | (Inr b, d') \<Rightarrow> Some (\<lparr>code = StatusOK, payload = Json (encode_Book b)\<rparr>, d')))"

text \<open>
  \<^verbatim>\<open>updateBookByID\<close> (lines 196 to 229): the identifier of the path, the body (its
  fields are not tested for emptiness), the update, 404 when no row was affected.
  The error that \<^verbatim>\<open>res.RowsAffected()\<close> returns beside the count is dropped by the
  code.
\<close>

definition updateBookByID :: "faults \<Rightarrow> request \<Rightarrow> db \<Rightarrow> (response \<times> db) option" where
  "updateBookByID f r d =
     (case parseIDFromURL (Path r) of
        None \<Rightarrow> None
      | Some (Inl err) \<Rightarrow> Some (http_Error InvalidID StatusBadRequest, d)
      | Some (Inr i) \<Rightarrow>
          (case Body r of
             DecodeError \<Rightarrow> Some (http_Error InvalidJSON StatusBadRequest, d)
           | Decoded b \<Rightarrow>
               (case db_update f (Title b) (Author b) (Year b) i d of
                  (Inl err, d') \<Rightarrow>
                    Some (http_Error (UpdateFailed err) StatusInternalServerError, d')
                | (Inr affected, d') \<Rightarrow>
                    if affected = 0 then Some (http_Error NoBookWithID StatusNotFound, d')
                    else Some (\<lparr>code = StatusOK, payload = Text (Updated i)\<rparr>, d'))))"

text \<open>
  \<^verbatim>\<open>deleteBookByID\<close> (lines 232 to 257).
\<close>

definition deleteBookByID :: "faults \<Rightarrow> request \<Rightarrow> db \<Rightarrow> (response \<times> db) option" where
  "deleteBookByID f r d =
     (case parseIDFromURL (Path r) of
        None \<Rightarrow> None
      | Some (Inl err) \<Rightarrow> Some (http_Error InvalidID StatusBadRequest, d)
      | Some (Inr i) \<Rightarrow>
          (case db_delete f i d of
             (Inl err, d') \<Rightarrow>
               Some (http_Error (DeleteFailed err) StatusInternalServerError, d')
           | (Inr affected, d') \<Rightarrow>
               if affected = 0 then Some (http_Error NoBookWithID StatusNotFound, d')
               else Some (\<lparr>code = StatusOK, payload = Text (Deleted i)\<rparr>, d')))"

text \<open>
  The two functions registered with the router (lines 82 to 105): \<^verbatim>\<open>handleBooks\<close>
  for the path \<^verbatim>\<open>/books\<close> and \<^verbatim>\<open>handleBookByID\<close> for the paths under \<^verbatim>\<open>/books/\<close>.
\<close>

definition handleBooks :: "faults \<Rightarrow> request \<Rightarrow> db \<Rightarrow> response \<times> db" where
  "handleBooks f r d =
     (if Method r = ''POST'' then createBook f r d
      else if Method r = ''GET'' then getAllBooks f r d
      else (http_Error MethodNotSupported StatusMethodNotAllowed, d))"

definition handleBookByID :: "faults \<Rightarrow> request \<Rightarrow> db \<Rightarrow> (response \<times> db) option" where
  "handleBookByID f r d =
     (if Method r = ''GET'' then getBookByID f r d
      else if Method r = ''PUT'' then updateBookByID f r d
      else if Method r = ''DELETE'' then deleteBookByID f r d
      else Some (http_Error MethodNotSupported StatusMethodNotAllowed, d))"

text \<open>
  The path under which a client asks for the book with identifier \<open>i\<close>:
  \<^verbatim>\<open>/books/\<close> and the decimal numeral of \<open>i\<close>, as in the requests of the README.
\<close>

definition digit_char :: "nat \<Rightarrow> char" where
  "digit_char k = decimalDigits ! k"

fun decimal_nat :: "nat \<Rightarrow> string" where
  "decimal_nat n = (if n < 10 then [digit_char n] else decimal_nat (n div 10) @ [digit_char (n mod 10)])"

definition decimal :: "int \<Rightarrow> string" where
  "decimal i = (if i < 0 then CHR ''-'' # decimal_nat (nat (- i)) else decimal_nat (nat i))"

definition book_path :: "int \<Rightarrow> string" where
  "book_path i = ''/books/'' @ decimal i"

section \<open>Preliminaries\<close>

text \<open>
  The equation of \<open>decimal_nat\<close> rewrites its own right-hand side: it is used by
  instance only. The definitions of the scanner are collected for evaluating it on
  concrete paths.
\<close>

declare decimal_nat.simps [simp del]

lemmas scan_defs = Sscan_def scanInt_def space_width_def sign_def accept_def scanBasePrefix_def
  peek_def decimalDigits_def octalDigits_def binaryDigits_def hexadecimalDigits_def
  scanNumber_def ParseInt_def ParseUint_def digit_of_def maxUint64_def underscoreOK_def

section \<open>The path under the prefix\<close>

lemma parseIDFromURL_prefix:
  "parseIDFromURL (''/books/'' @ rest) =
     Some (case Sscan rest of Inl e \<Rightarrow> Inl (ScanFailed e) | Inr i \<Rightarrow> Inr i)"
  by (simp add: parseIDFromURL_def splitPath_def split: sum.splits)

lemma parseIDFromURL_not_BadPath: "parseIDFromURL path \<noteq> Some (Inl (BadPath s))"
  by (simp add: parseIDFromURL_def splitPath_def split: sum.splits)

text \<open>
  Claim C7. For every path that starts with \<^verbatim>\<open>/books/\<close>, \<^verbatim>\<open>splitPath\<close> returns (the
  slice is in bounds, there is no panic) exactly the three elements \<^verbatim>\<open>""\<close>,
  \<^verbatim>\<open>"books"\<close> and the path after the prefix; \<^verbatim>\<open>parseIDFromURL\<close> then goes on to scan
  the third element, and its branch for fewer than three elements is taken for no
  path at all.
\<close>

theorem splitPath_books_prefix:
  "splitPath (''/books/'' @ rest) = Some [[], ''books'', rest]
   \<and> parseIDFromURL (''/books/'' @ rest) =
       Some (case Sscan rest of Inl e \<Rightarrow> Inl (ScanFailed e) | Inr i \<Rightarrow> Inr i)
   \<and> (\<forall>path s. parseIDFromURL path \<noteq> Some (Inl (BadPath s)))"
  using parseIDFromURL_prefix parseIDFromURL_not_BadPath
  by (simp add: splitPath_def)

section \<open>Scanning a numeral\<close>

text \<open>
  The digits that \<open>decimal_nat\<close> writes, and what the parts of the scanner do with
  them.
\<close>

lemma digit_char_cases:
  assumes "k < 10"
  shows "digit_char k \<in> set decimalDigits \<and> digit_of (digit_char k) = Some k
         \<and> (digit_char k = CHR ''0'' \<longleftrightarrow> k = 0)"
proof -
  from assms have "k = 0 \<or> k = 1 \<or> k = 2 \<or> k = 3 \<or> k = 4 \<or> k = 5 \<or> k = 6 \<or> k = 7 \<or> k = 8 \<or> k = 9"
    by arith
  then show ?thesis
    by (elim disjE) (simp_all add: digit_char_def decimalDigits_def digit_of_def)
qed

lemma decimalDigits_props:
  assumes "c \<in> set decimalDigits"
  shows "c \<noteq> CHR ''_'' \<and> c \<noteq> CHR ''-'' \<and> c \<noteq> CHR ''+''"
  using assms
  by (auto simp: decimalDigits_def)

lemma space_width_ascii:
  assumes "(of_char c :: nat) < 128" and "\<not> (9 \<le> (of_char c :: nat) \<and> (of_char c :: nat) \<le> 13)"
    and "(of_char c :: nat) \<noteq> 32"
  shows "space_width (c # cs) = 0"
proof -
  have "take 3 (c # cs) = c # take 2 cs"
    by (simp add: numeral_3_eq_3 numeral_2_eq_2)
  then show ?thesis
    using assms by (simp add: space_width_def split: list.splits)
qed

lemma SkipSpace_ascii:
  assumes "(of_char c :: nat) < 128" and "\<not> (9 \<le> (of_char c :: nat) \<and> (of_char c :: nat) \<le> 13)"
    and "(of_char c :: nat) \<noteq> 32"
  shows "SkipSpace (c # cs) = c # cs"
  using space_width_ascii [OF assms] by simp

lemma SkipSpace_numeric:
  assumes "c \<in> set (sign @ decimalDigits @ ''_'')"
  shows "SkipSpace (c # cs) = c # cs"
proof (rule SkipSpace_ascii)
  show "(of_char c :: nat) < 128" using assms by (auto simp: sign_def decimalDigits_def)
  show "\<not> (9 \<le> (of_char c :: nat) \<and> (of_char c :: nat) \<le> 13)" using assms by (auto simp: sign_def decimalDigits_def)
  show "(of_char c :: nat) \<noteq> 32" using assms by (auto simp: sign_def decimalDigits_def)
qed

lemma SkipSpace_idem: "SkipSpace (SkipSpace s) = SkipSpace s"
  by (induction s rule: SkipSpace.induct) simp_all

lemma scanInt_SkipSpace: "scanInt ([], s) = scanInt ([], SkipSpace s)"
  by (simp add: scanInt_def SkipSpace_idem)

lemma decimal_nat_digits: "set (decimal_nat n) \<subseteq> set decimalDigits"
proof (induction n rule: decimal_nat.induct)
  case (1 n)
  show ?case
  proof (cases "n < 10")
    case True
    then show ?thesis
      using digit_char_cases [of n] by (simp add: decimal_nat.simps [of n])
  next
    case False
    then show ?thesis
      using 1 digit_char_cases [of "n mod 10"] by (simp add: decimal_nat.simps [of n])
  qed
qed

lemma decimal_nat_not_Nil: "decimal_nat n \<noteq> []"
  by (simp add: decimal_nat.simps [of n])

lemma decimal_nat_hd: "0 < n \<Longrightarrow> hd (decimal_nat n) \<noteq> CHR ''0''"
proof (induction n rule: decimal_nat.induct)
  case (1 n)
  show ?case
  proof (cases "n < 10")
    case True
    then show ?thesis
      using digit_char_cases [of n] "1.prems" by (simp add: decimal_nat.simps [of n])
  next
    case False
    then have "0 < n div 10" by simp
    then show ?thesis
      using False 1 decimal_nat_not_Nil [of "n div 10"] by (simp add: decimal_nat.simps [of n])
  qed
qed

lemma decimal_nat_hd_digit: "hd (decimal_nat n) \<in> set decimalDigits"
  using decimal_nat_digits [of n] decimal_nat_not_Nil [of n]
  by (cases "decimal_nat n") auto

lemma SkipSpace_decimal: "SkipSpace (decimal i @ rest) = decimal i @ rest"
proof (cases "i < 0")
  case True
  then show ?thesis
    using SkipSpace_numeric [of "CHR ''-''" "decimal_nat (nat (- i)) @ rest"]
    by (simp add: decimal_def sign_def)
next
  case False
  obtain c cs where ds: "decimal_nat (nat i) = c # cs"
    using decimal_nat_not_Nil [of "nat i"] by (cases "decimal_nat (nat i)") auto
  then have "c \<in> set decimalDigits"
    using decimal_nat_digits [of "nat i"] by simp
  then show ?thesis
    using False ds SkipSpace_numeric [of c "cs @ rest"] by (simp add: decimal_def)
qed

text \<open>
  The digit loop of \<^verbatim>\<open>ParseUint\<close> runs through a concatenation piece by piece. It
  reads the numeral of \<open>n\<close> back as \<open>n\<close> as long as \<open>n\<close> fits 64 bits, and
  reports a range error beyond; \<^verbatim>\<open>ParseInt\<close> narrows the range to that of an
  \<^verbatim>\<open>int64\<close>.
\<close>

lemma parse_digits_append:
  "parse_digits base n us (xs @ ys) =
     (case parse_digits base n us xs of
        Inl e \<Rightarrow> Inl e
      | Inr (m, us') \<Rightarrow> parse_digits base m us' ys)"
  by (induction xs arbitrary: n us) (simp_all split: option.splits)

lemma parse_digits_decimal_nat:
  "n \<le> maxUint64 \<Longrightarrow> parse_digits 10 0 False (decimal_nat n) = Inr (n, False)"
proof (induction n rule: decimal_nat.induct)
  case (1 n)
  show ?case
  proof (cases "n < 10")
    case True
    then show ?thesis
      using digit_char_cases [of n] decimalDigits_props [of "digit_char n"]
      by (simp add: decimal_nat.simps [of n] maxUint64_def)
  next
    case False
    have le: "n div 10 \<le> maxUint64" using "1.prems" by simp
    have cut: "\<not> n div 10 \<ge> maxUint64 div 10 + 1"
      using "1.prems" by (simp add: maxUint64_def)
    have d: "digit_of (digit_char (n mod 10)) = Some (n mod 10)"
      and u: "digit_char (n mod 10) \<noteq> CHR ''_''"
      using digit_char_cases [of "n mod 10"] decimalDigits_props [of "digit_char (n mod 10)"] by simp_all
    have recomp: "n div 10 * 10 + n mod 10 = n" by simp
    have small: "\<not> 10 \<le> n mod 10" by simp
    show ?thesis
      using False "1.IH" le cut d u "1.prems" recomp small
      by (simp add: decimal_nat.simps [of n] parse_digits_append)
  qed
qed

lemma parse_digits_decimal_nat_range:
  "parse_digits 10 0 False (decimal_nat n) = (if n \<le> maxUint64 then Inr (n, False) else Inl ErrRange)"
proof (induction n rule: decimal_nat.induct)
  case (1 n)
  show ?case
  proof (cases "n < 10")
    case True
    then show ?thesis
      using parse_digits_decimal_nat [of n] by (simp add: maxUint64_def)
  next
    case False
    have d: "digit_of (digit_char (n mod 10)) = Some (n mod 10)"
      and u: "digit_char (n mod 10) \<noteq> CHR ''_''"
      using digit_char_cases [of "n mod 10"] decimalDigits_props [of "digit_char (n mod 10)"] by simp_all
    have recomp: "n div 10 * 10 + n mod 10 = n" by simp
    have small: "\<not> 10 \<le> n mod 10" by simp
    show ?thesis
    proof (cases "n \<le> maxUint64")
      case True
      then show ?thesis using parse_digits_decimal_nat [of n] by simp
    next
      case big: False
      show ?thesis
      proof (cases "n div 10 \<le> maxUint64")
        case True
        then have pre: "parse_digits 10 0 False (decimal_nat (n div 10)) = Inr (n div 10, False)"
          using "1.IH" False by simp
        show ?thesis
          using False pre d u small recomp big
          by (simp add: decimal_nat.simps [of n] parse_digits_append)
      next
        case False
        then have pre: "parse_digits 10 0 False (decimal_nat (n div 10)) = Inl ErrRange"
          using "1.IH" \<open>\<not> n < 10\<close> by simp
        show ?thesis
          using \<open>\<not> n < 10\<close> pre big
          by (simp add: decimal_nat.simps [of n] parse_digits_append)
      qed
    qed
  qed
qed

lemma ParseUint_decimal_nat_range:
  assumes "0 < n"
  shows "ParseUint (decimal_nat n) = (if n \<le> maxUint64 then Inr n else Inl ErrRange)"
  using decimal_nat_not_Nil [of n] decimal_nat_hd [OF assms] parse_digits_decimal_nat_range [of n]
  by (simp add: ParseUint_def)

lemma ParseInt_unsigned:
  assumes "0 < n"
  shows "ParseInt (decimal_nat n) = (if n < 2 ^ 63 then Inr (int n) else Inl ErrRange)"
proof -
  have s: "hd (decimal_nat n) \<noteq> CHR ''-''" "hd (decimal_nat n) \<noteq> CHR ''+''"
    using decimalDigits_props [OF decimal_nat_hd_digit [of n]] by simp_all
  show ?thesis
    using s ParseUint_decimal_nat_range [OF assms] decimal_nat_not_Nil [of n]
    by (simp add: ParseInt_def maxUint64_def)
qed

lemma ParseInt_plus:
  assumes "0 < n"
  shows "ParseInt (CHR ''+'' # decimal_nat n) = (if n < 2 ^ 63 then Inr (int n) else Inl ErrRange)"
  using ParseUint_decimal_nat_range [OF assms]
  by (simp add: ParseInt_def maxUint64_def)

lemma ParseInt_minus:
  assumes "0 < n"
  shows "ParseInt (CHR ''-'' # decimal_nat n) = (if n \<le> 2 ^ 63 then Inr (- int n) else Inl ErrRange)"
  using ParseUint_decimal_nat_range [OF assms]
  by (simp add: ParseInt_def maxUint64_def)

text \<open>
  The scanner collects a run of accepted characters and stops at the first
  character it does not accept; what follows stays unread.
\<close>

lemma accept_all_run:
  assumes "set ds \<subseteq> set ok" and "rest = [] \<or> hd rest \<notin> set ok"
  shows "accept_all ok buf (ds @ rest) = (buf @ ds, rest)"
  using assms
proof (induction ds arbitrary: buf)
  case Nil
  then show ?case by (cases rest) auto
next
  case (Cons d ds)
  then show ?case by simp
qed

lemma accept_all_takeWhile:
  "fst (accept_all ok buf inp) = buf @ takeWhile (\<lambda>c. c \<in> set ok) inp"
  by (induction inp arbitrary: buf) simp_all

lemma scanInt_token:
  assumes "c \<in> set decimalDigits" and "c \<noteq> CHR ''0''" and "set cs \<subseteq> set decimalDigits"
    and "rest = [] \<or> hd rest \<notin> set (decimalDigits @ ''_'')"
  shows "scanInt ([], c # cs @ rest) =
           (case ParseInt (c # cs) of Inl e \<Rightarrow> Inl (NumError e) | Inr i \<Rightarrow> Inr i)"
proof -
  have sk: "SkipSpace (c # cs @ rest) = c # cs @ rest"
    using assms(1) by (intro SkipSpace_numeric) simp
  have nosign: "c \<notin> set sign"
    using decimalDigits_props [OF assms(1)] by (simp add: sign_def)
  have run: "accept_all (decimalDigits @ ''_'') [c] (cs @ rest) = ([c] @ cs, rest)"
    using assms(3,4) by (intro accept_all_run) auto
  show ?thesis
    using sk nosign run assms(1,2)
    by (simp add: scanInt_def accept_def scanBasePrefix_def peek_def scanNumber_def)
qed

lemma scanInt_signed_token:
  assumes "x \<in> set sign"
    and "c \<in> set decimalDigits" and "c \<noteq> CHR ''0''" and "set cs \<subseteq> set decimalDigits"
    and "rest = [] \<or> hd rest \<notin> set (decimalDigits @ ''_'')"
  shows "scanInt ([], x # c # cs @ rest) =
           (case ParseInt (x # c # cs) of Inl e \<Rightarrow> Inl (NumError e) | Inr i \<Rightarrow> Inr i)"
proof -
  have sk: "SkipSpace (x # c # cs @ rest) = x # c # cs @ rest"
    using assms(1) by (intro SkipSpace_numeric) simp
  have run: "accept_all (decimalDigits @ ''_'') [x, c] (cs @ rest) = ([x, c] @ cs, rest)"
    using assms(4,5) by (intro accept_all_run) auto
  show ?thesis
    using sk run assms(1,2,3)
    by (simp add: scanInt_def accept_def scanBasePrefix_def peek_def scanNumber_def)
qed

lemma scanInt_zero:
  assumes "sg = [] \<or> sg = ''+'' \<or> sg = ''-''"
    and "rest = [] \<or> hd rest \<notin> set ''0123456789_bBoOxX''"
  shows "scanInt ([], sg @ ''0'' @ rest) = Inr 0"
proof -
  have sk: "SkipSpace (sg @ CHR ''0'' # rest) = sg @ CHR ''0'' # rest"
  proof -
    have "SkipSpace (CHR ''0'' # rest) = CHR ''0'' # rest"
      "SkipSpace (CHR ''+'' # CHR ''0'' # rest) = CHR ''+'' # CHR ''0'' # rest"
      "SkipSpace (CHR ''-'' # CHR ''0'' # rest) = CHR ''-'' # CHR ''0'' # rest"
      by (intro SkipSpace_numeric; simp add: sign_def decimalDigits_def)+
    then show ?thesis using assms(1) by auto
  qed
  have sg: "snd (accept sign ([], sg @ CHR ''0'' # rest)) = (sg, CHR ''0'' # rest)"
    using assms(1) by (auto simp: accept_def sign_def)
  have z: "peek ''0'' (sg, CHR ''0'' # rest)"
    and a: "accept ''0'' (sg, CHR ''0'' # rest) = (True, (sg @ ''0'', rest))"
    by (simp_all add: peek_def accept_def)
  have pk: "\<not> peek ''bB'' (sg @ ''0'', rest)" "\<not> peek ''oO'' (sg @ ''0'', rest)"
    "\<not> peek ''xX'' (sg @ ''0'', rest)"
    using assms(2) by (cases rest; simp add: peek_def)+
  have "rest = [] \<or> hd rest \<notin> set (octalDigits @ ''_'')"
    using assms(2) by (auto simp: octalDigits_def)
  then have run: "accept_all (octalDigits @ ''_'') (sg @ ''0'') ([] @ rest) = ((sg @ ''0'') @ [], rest)"
    by (intro accept_all_run) simp_all
  have pre: "scanBasePrefix (sg, CHR ''0'' # rest) = ((octalDigits @ ''_'', True), (sg @ ''0'', rest))"
    using z a pk by (simp add: scanBasePrefix_def)
  have num: "scanNumber (octalDigits @ ''_'') True (sg @ ''0'', rest) = Inr (sg @ ''0'')"
    using run by (simp add: scanNumber_def)
  have val: "ParseInt (sg @ ''0'') = Inr 0"
    using assms(1) by (auto simp: ParseInt_def ParseUint_def)
  show ?thesis
    using sk sg pre num val by (simp add: scanInt_def)
qed

text \<open>
  A numeral without leading zero, with or without a sign, at the front of the
  input after its white space: the value when it fits 64 bits, a range error when
  it does not.
\<close>

lemma Sscan_numeral:
  assumes "SkipSpace s = sg @ decimal_nat n @ rest"
    and "sg = [] \<or> sg = ''+'' \<or> sg = ''-''"
    and "rest = [] \<or> (hd rest \<notin> set ''0123456789_'' \<and> (n = 0 \<longrightarrow> hd rest \<notin> set ''bBoOxX''))"
  shows "Sscan s =
           (if sg = ''-''
            then (if n \<le> 2 ^ 63 then Inr (- int n) else Inl (NumError ErrRange))
            else (if n < 2 ^ 63 then Inr (int n) else Inl (NumError ErrRange)))"
proof (cases "n = 0")
  case True
  have "rest = [] \<or> hd rest \<notin> set ''0123456789_bBoOxX''"
    using assms(3) True by auto
  then have "scanInt ([], sg @ ''0'' @ rest) = Inr 0"
    using scanInt_zero [OF assms(2)] by simp
  then show ?thesis
    using True assms(1) scanInt_SkipSpace [of s]
    by (simp add: Sscan_def decimal_nat.simps [of 0] digit_char_def decimalDigits_def)
next
  case False
  then have n: "0 < n" by simp
  have rest': "rest = [] \<or> hd rest \<notin> set (decimalDigits @ ''_'')"
    using assms(3) by (auto simp: decimalDigits_def)
  obtain c cs where ds: "decimal_nat n = c # cs"
    using decimal_nat_not_Nil [of n] by (cases "decimal_nat n") auto
  have c: "c \<in> set decimalDigits" "c \<noteq> CHR ''0''" "set cs \<subseteq> set decimalDigits"
    using decimal_nat_digits [of n] decimal_nat_hd [OF n] ds by simp_all
  from assms(2) show ?thesis
  proof (elim disjE)
    assume sg: "sg = []"
    have "scanInt ([], c # cs @ rest) = (if n < 2 ^ 63 then Inr (int n) else Inl (NumError ErrRange))"
      using scanInt_token [OF c rest'] ParseInt_unsigned [OF n] ds by simp
    then show ?thesis
      using sg ds assms(1) scanInt_SkipSpace [of s] by (simp add: Sscan_def)
  next
    assume sg: "sg = ''+''"
    have "scanInt ([], CHR ''+'' # c # cs @ rest)
            = (if n < 2 ^ 63 then Inr (int n) else Inl (NumError ErrRange))"
      using scanInt_signed_token [OF _ c rest', of "CHR ''+''"] ParseInt_plus [OF n] ds
      by (simp add: sign_def)
    then show ?thesis
      using sg ds assms(1) scanInt_SkipSpace [of s] by (simp add: Sscan_def)
  next
    assume sg: "sg = ''-''"
    have "scanInt ([], CHR ''-'' # c # cs @ rest)
            = (if n \<le> 2 ^ 63 then Inr (- int n) else Inl (NumError ErrRange))"
      using scanInt_signed_token [OF _ c rest', of "CHR ''-''"] ParseInt_minus [OF n] ds
      by (simp add: sign_def)
    then show ?thesis
      using sg ds assms(1) scanInt_SkipSpace [of s] by (simp add: Sscan_def)
  qed
qed

lemma Sscan_decimal_general:
  assumes "SkipSpace s = decimal i @ rest \<or> (0 \<le> i \<and> SkipSpace s = CHR ''+'' # decimal i @ rest)"
    and "rest = [] \<or> (hd rest \<notin> set ''0123456789_'' \<and> (i = 0 \<longrightarrow> hd rest \<notin> set ''bBoOxX''))"
  shows "Sscan s = (if is_int64 i then Inr i else Inl (NumError ErrRange))"
proof (cases "i < 0")
  case True
  let ?n = "nat (- i)"
  have shape: "SkipSpace s = ''-'' @ decimal_nat ?n @ rest"
    using assms(1) True by (simp add: decimal_def)
  have r: "rest = [] \<or> (hd rest \<notin> set ''0123456789_'' \<and> (?n = 0 \<longrightarrow> hd rest \<notin> set ''bBoOxX''))"
    using assms(2) True by auto
  have "(?n \<le> 2 ^ 63) = is_int64 i" "int ?n = - i"
    using True by (auto simp: is_int64_def)
  then show ?thesis
    using Sscan_numeral [OF shape _ r] by simp
next
  case False
  let ?n = "nat i"
  have r: "rest = [] \<or> (hd rest \<notin> set ''0123456789_'' \<and> (?n = 0 \<longrightarrow> hd rest \<notin> set ''bBoOxX''))"
    using assms(2) False by auto
  have v: "(?n < 2 ^ 63) = is_int64 i" "int ?n = i"
    using False by (auto simp: is_int64_def)
  from assms(1) show ?thesis
  proof
    assume "SkipSpace s = decimal i @ rest"
    then have shape: "SkipSpace s = [] @ decimal_nat ?n @ rest"
      using False by (simp add: decimal_def)
    show ?thesis
      using Sscan_numeral [OF shape _ r] v by simp
  next
    assume "0 \<le> i \<and> SkipSpace s = CHR ''+'' # decimal i @ rest"
    then have shape: "SkipSpace s = ''+'' @ decimal_nat ?n @ rest"
      using False by (simp add: decimal_def)
    show ?thesis
      using Sscan_numeral [OF shape _ r] v by simp
  qed
qed

lemma parseIDFromURL_book_path:
  assumes "is_int64 i"
  shows "parseIDFromURL (book_path i) = Some (Inr i)"
  using Sscan_decimal_general [of "decimal i" i "[]"] SkipSpace_decimal [of i "[]"] assms
    parseIDFromURL_prefix [of "decimal i"]
  by (simp add: book_path_def)

text \<open>
  Without a digit where the number has to start, the scanner returns an error:
  at the end of the input, at an underscore (which it collects, and which
  \<^verbatim>\<open>ParseInt\<close> refuses at the front of a number), at any other character.
\<close>

lemma parse_digits_flag:
  "parse_digits base n True cs = Inr (m, us) \<Longrightarrow> us"
  by (induction cs arbitrary: n) (auto split: if_splits option.splits)

lemma ParseUint_underscore: "\<exists>e. ParseUint (CHR ''_'' # cs) = Inl e"
proof (cases "parse_digits 10 0 True cs")
  case (Inl e)
  then show ?thesis by (simp add: ParseUint_def)
next
  case (Inr p)
  obtain m us where p: "p = (m, us)" by (cases p)
  then have "us" using Inr parse_digits_flag [of 10 0 cs m us] by simp
  then show ?thesis
    using Inr p by (simp add: ParseUint_def underscoreOK_def decimalDigits_def)
qed

lemma ParseInt_of_ParseUint_error:
  assumes "ParseUint s = Inl e"
  shows "\<exists>e'. ParseInt (CHR ''+'' # s) = Inl e'" and "\<exists>e'. ParseInt (CHR ''-'' # s) = Inl e'"
    and "s \<noteq> [] \<Longrightarrow> hd s \<noteq> CHR ''+'' \<Longrightarrow> hd s \<noteq> CHR ''-'' \<Longrightarrow> \<exists>e'. ParseInt s = Inl e'"
  using assms by (cases e; simp add: ParseInt_def maxUint64_def)+

lemma ParseInt_underscore:
  assumes "buf = [] \<or> buf = ''+'' \<or> buf = ''-''"
  shows "\<exists>e. ParseInt (buf @ CHR ''_'' # cs) = Inl e"
proof -
  obtain e where e: "ParseUint (CHR ''_'' # cs) = Inl e"
    using ParseUint_underscore by blast
  show ?thesis
    using assms ParseInt_of_ParseUint_error [OF e] by auto
qed

lemma scanInt_no_digit:
  assumes "buf = [] \<or> buf = ''+'' \<or> buf = ''-''"
    and "u = [] \<or> hd u \<notin> set decimalDigits"
  shows "\<exists>digits s3.
           scanBasePrefix (buf, u) = ((digits, False), s3)
           \<and> ((\<exists>e. scanNumber digits False s3 = Inl e)
                \<or> (\<exists>tok e. scanNumber digits False s3 = Inr tok \<and> ParseInt tok = Inl e))"
proof (cases u)
  case Nil
  then show ?thesis
    by (simp add: scanBasePrefix_def peek_def scanNumber_def)
next
  case (Cons c cs)
  then have c: "c \<notin> set decimalDigits" using assms(2) by simp
  then have nz: "c \<noteq> CHR ''0''" by (auto simp: decimalDigits_def)
  have pre: "scanBasePrefix (buf, c # cs) = ((decimalDigits @ ''_'', False), (buf, c # cs))"
    using nz by (simp add: scanBasePrefix_def peek_def)
  show ?thesis
  proof (cases "c = CHR ''_''")
    case True
    let ?run = "takeWhile (\<lambda>x. x \<in> set (decimalDigits @ ''_'')) cs"
    have tok: "scanNumber (decimalDigits @ ''_'') False (buf, c # cs) = Inr (buf @ CHR ''_'' # ?run)"
      using True accept_all_takeWhile [of "decimalDigits @ ''_''" "buf @ ''_''" cs]
      by (simp add: scanNumber_def accept_def)
    obtain e where "ParseInt (buf @ CHR ''_'' # ?run) = Inl e"
      using ParseInt_underscore [OF assms(1)] by blast
    then show ?thesis
      using Cons pre tok by simp
  next
    case False
    then have "scanNumber (decimalDigits @ ''_'') False (buf, c # cs) = Inl ExpectedInteger"
      using c by (simp add: scanNumber_def accept_def)
    then show ?thesis
      using Cons pre by simp
  qed
qed

lemma Sscan_no_digit:
  assumes "number_start s = [] \<or> hd (number_start s) \<notin> set decimalDigits"
  shows "\<exists>e. Sscan s = Inl e"
proof (cases "SkipSpace s")
  case Nil
  then show ?thesis by (simp add: Sscan_def scanInt_def)
next
  case (Cons c cs)
  obtain buf u where acc: "snd (accept sign ([], c # cs)) = (buf, u)"
    and buf: "buf = [] \<or> buf = ''+'' \<or> buf = ''-''"
    by (cases "c \<in> set sign") (auto simp: accept_def sign_def)
  have u: "u = [] \<or> hd u \<notin> set decimalDigits"
    using assms Cons acc by (simp add: number_start_def)
  obtain digits s3 where pre: "scanBasePrefix (buf, u) = ((digits, False), s3)"
    and res: "(\<exists>e. scanNumber digits False s3 = Inl e)
                \<or> (\<exists>tok e. scanNumber digits False s3 = Inr tok \<and> ParseInt tok = Inl e)"
    using scanInt_no_digit [OF buf u] by blast
  from res show ?thesis
    using Cons acc pre by (auto simp: Sscan_def scanInt_def)
qed

text \<open>
  A leading zero makes the scanner read the digits as octal: the identifier of
  \<^verbatim>\<open>/books/010\<close> is 8.
\<close>

lemma parseIDFromURL_leading_zero: "parseIDFromURL ''/books/010'' = Some (Inr 8)"
  by (simp add: parseIDFromURL_def splitPath_def scan_defs)

text \<open>
  An error of the extractor makes each handler under \<^verbatim>\<open>/books/\<close> answer 400 without
  touching the database.
\<close>

lemma by_id_invalid:
  assumes "parseIDFromURL (Path r) = Some (Inl e)"
  shows "getBookByID f r d = Some (http_Error InvalidID StatusBadRequest, d)
       \<and> updateBookByID f r d = Some (http_Error InvalidID StatusBadRequest, d)
       \<and> deleteBookByID f r d = Some (http_Error InvalidID StatusBadRequest, d)"
  using assms by (simp add: getBookByID_def updateBookByID_def deleteBookByID_def)

text \<open>
  Claim C6 says that the extractor returns the integer for a decimal suffix and an
  error for every other suffix, a trailing slash or further segments included. The
  scanner stops after the number and leaves the rest unread, and it reads a
  numeral with a leading zero as octal, so the claim fails as stated; what holds
  is the following. Let the suffix, after its leading white space, begin with the
  decimal numeral of an integer \<open>i\<close> (a minus sign for a negative one, a plus sign
  allowed, no leading zero), and let the numeral end the suffix or be followed by
  a character that is not a digit or an underscore nor, after the numeral 0, one
  of \<^verbatim>\<open>bBoOxX\<close>: the extractor returns \<open>i\<close> when \<open>i\<close> fits 64 bits, and a range
  error when it does not; a slash and further segments after the numeral change
  nothing. When after the leading white space and one optional sign no decimal
  digit comes first (the empty suffix, white space alone, a letter, a bare sign,
  an underscore), the extractor returns an error. On every error of the extractor
  the three handlers under \<^verbatim>\<open>/books/\<close> answer 400 and leave the database as it was.
\<close>

theorem parseIDFromURL_numeral:
  "((SkipSpace s = decimal i @ rest \<or> (0 \<le> i \<and> SkipSpace s = CHR ''+'' # decimal i @ rest))
      \<and> (rest = [] \<or> (hd rest \<notin> set ''0123456789_'' \<and> (i = 0 \<longrightarrow> hd rest \<notin> set ''bBoOxX'')))
      \<longrightarrow> parseIDFromURL (''/books/'' @ s)
            = Some (if is_int64 i then Inr i else Inl (ScanFailed (NumError ErrRange))))
   \<and> (number_start t = [] \<or> hd (number_start t) \<notin> set decimalDigits
      \<longrightarrow> (\<exists>e. parseIDFromURL (''/books/'' @ t) = Some (Inl e)))
   \<and> (parseIDFromURL (Path r) = Some (Inl e) \<longrightarrow>
        getBookByID f r d = Some (http_Error InvalidID StatusBadRequest, d)
        \<and> updateBookByID f r d = Some (http_Error InvalidID StatusBadRequest, d)
        \<and> deleteBookByID f r d = Some (http_Error InvalidID StatusBadRequest, d))"
proof (intro conjI impI)
  assume a: "(SkipSpace s = decimal i @ rest \<or> (0 \<le> i \<and> SkipSpace s = CHR ''+'' # decimal i @ rest))
      \<and> (rest = [] \<or> (hd rest \<notin> set ''0123456789_'' \<and> (i = 0 \<longrightarrow> hd rest \<notin> set ''bBoOxX'')))"
  then have "Sscan s = (if is_int64 i then Inr i else Inl (NumError ErrRange))"
    using Sscan_decimal_general [of s i rest] by blast
  then show "parseIDFromURL (''/books/'' @ s)
            = Some (if is_int64 i then Inr i else Inl (ScanFailed (NumError ErrRange)))"
    using parseIDFromURL_prefix [of s] by simp
next
  assume "number_start t = [] \<or> hd (number_start t) \<notin> set decimalDigits"
  then obtain e where "Sscan t = Inl e"
    using Sscan_no_digit [of t] by blast
  then show "\<exists>e. parseIDFromURL (''/books/'' @ t) = Some (Inl e)"
    using parseIDFromURL_prefix [of t] by simp
next
  assume e: "parseIDFromURL (Path r) = Some (Inl e)"
  show "getBookByID f r d = Some (http_Error InvalidID StatusBadRequest, d)"
    and "updateBookByID f r d = Some (http_Error InvalidID StatusBadRequest, d)"
    and "deleteBookByID f r d = Some (http_Error InvalidID StatusBadRequest, d)"
    using by_id_invalid [OF e] by simp_all
qed

lemma decimal_12: "decimal 12 = ''12''"
  by (simp add: decimal_def decimal_nat.simps [of 12] decimal_nat.simps [of 1]
        decimal_nat.simps [of "Suc 0"] digit_char_def decimalDigits_def)

theorem parseIDFromURL_numeral_witness:
  "parseIDFromURL ''/books/12/extra'' = Some (Inr 12)
   \<and> (\<exists>e. parseIDFromURL ''/books/-abc'' = Some (Inl e))
   \<and> getBookByID no_faults \<lparr>Method = ''GET'', Path = ''/books/-abc'', Body = DecodeError\<rparr>
        \<lparr>table = [], next_id = 1, log = []\<rparr>
      = Some (\<lparr>code = 400, payload = Text InvalidID\<rparr>, \<lparr>table = [], next_id = 1, log = []\<rparr>)"
proof -
  let ?r = "\<lparr>Method = ''GET'', Path = ''/books/-abc'', Body = DecodeError\<rparr>"
  let ?d = "\<lparr>table = [], next_id = 1, log = []\<rparr>"
  have sk: "SkipSpace ''12/extra'' = decimal 12 @ ''/extra''"
    by (simp add: decimal_12 space_width_def)
  have ns: "number_start ''-abc'' = ''abc''"
    by (simp add: number_start_def accept_def sign_def space_width_def)
  have i: "is_int64 12"
    by (simp add: is_int64_def)
  have abc: "parseIDFromURL (Path ?r) = Some (Inl (ScanFailed ExpectedInteger))"
    by (simp add: parseIDFromURL_def splitPath_def scan_defs)
  show ?thesis
    using parseIDFromURL_numeral [of "''12/extra''" 12 "''/extra''" "''-abc''" ?r
        "ScanFailed ExpectedInteger" no_faults ?d]
      sk ns i abc
    by (simp add: http_Error_def decimalDigits_def)
qed

text \<open>
  The counterexamples to claim C6 as stated. The suffix \<^verbatim>\<open>12/\<close> has a trailing
  slash: the extractor returns 12 without an error, and the get handler goes on to
  the database and answers 404 on an empty table, not 400. The suffix \<^verbatim>\<open>010\<close> is a
  decimal integer: the extractor returns 8.
\<close>

theorem parseIDFromURL_trailing_slash:
  "parseIDFromURL ''/books/12/'' = Some (Inr 12)
   \<and> map_option (code \<circ> fst)
        (getBookByID no_faults \<lparr>Method = ''GET'', Path = ''/books/12/'', Body = DecodeError\<rparr>
           \<lparr>table = [], next_id = 1, log = []\<rparr>) = Some 404
   \<and> parseIDFromURL ''/books/010'' = Some (Inr 8)"
proof -
  have p: "parseIDFromURL ''/books/12/'' = Some (Inr 12)"
    by (simp add: parseIDFromURL_def splitPath_def scan_defs)
  have q: "parseIDFromURL ''/books/010'' = Some (Inr 8)"
    by (simp add: parseIDFromURL_def splitPath_def scan_defs)
  from p q show ?thesis
    by (simp add: getBookByID_def db_select_def sent_def no_faults_def http_Error_def)
qed

section \<open>What the columns store\<close>

lemma clip_fits: "char_count s \<le> n \<Longrightarrow> clip n s = s"
proof (induction s arbitrary: n)
  case Nil
  then show ?case by simp
next
  case (Cons c cs)
  show ?case
  proof (cases "is_cont c")
    case True
    then show ?thesis using Cons by (simp add: char_count_def)
  next
    case False
    then have "char_count cs \<le> n - 1" and "n \<noteq> 0"
      using Cons.prems by (simp_all add: char_count_def)
    then show ?thesis using False Cons.IH by simp
  qed
qed

lemma char_count_le_length: "char_count s \<le> length s"
  by (simp add: char_count_def)

lemma clip_prefix: "take (length (clip n s)) s = clip n s"
  by (induction s arbitrary: n) simp_all

lemma spaces_replicate: "list_all (\<lambda>c. c = x) xs \<Longrightarrow> xs = replicate (length xs) x"
  by (induction xs) simp_all

lemma varchar_Some: "varchar n s = Some v \<Longrightarrow> v = clip n s"
  by (simp add: varchar_def Let_def split: if_splits)

lemma varchar_fits: "char_count s \<le> n \<Longrightarrow> varchar n s = Some s"
  by (simp add: varchar_def clip_fits)

lemma varchar_short: "length s \<le> n \<Longrightarrow> varchar n s = Some s"
  using char_count_le_length [of s] by (intro varchar_fits) simp

lemma varchar_dropped:
  assumes "varchar n s = Some v"
  shows "\<exists>k. s = clip n s @ replicate k (CHR '' '')"
proof -
  have sp: "list_all (\<lambda>c. c = CHR '' '') (drop (length (clip n s)) s)"
    using assms by (simp add: varchar_def Let_def split: if_splits)
  have "s = take (length (clip n s)) s @ drop (length (clip n s)) s"
    by simp
  then have "s = clip n s @ drop (length (clip n s)) s"
    by (simp add: clip_prefix)
  then show ?thesis
    using spaces_replicate [OF sp] by metis
qed

lemma clip_replicate:
  "\<not> is_cont a \<Longrightarrow> clip n (replicate n a @ rest) = replicate n a @ takeWhile is_cont rest"
proof (induction n)
  case 0
  then show ?case by (induction rest) auto
next
  case (Suc n)
  then show ?case by simp
qed

lemma varchar_trailing_space:
  "\<not> is_cont a \<Longrightarrow> varchar n (replicate n a @ '' '') = Some (replicate n a)"
  by (simp add: varchar_def clip_replicate is_cont_def)

section \<open>What the decoder refuses\<close>







section \<open>Creating a book\<close>

text \<open>
  Claim C2. A create request whose body decodes, with an empty title or an empty
  author, is answered 400, and the database is left as it was: the table, the
  sequence and the log of statements, so no insert was sent. The same holds for a
  body that the decoder refuses.
\<close>

theorem createBook_empty_field:
  assumes "Body r = DecodeError \<or> (\<exists>b. Body r = Decoded b \<and> (Title b = [] \<or> Author b = []))"
  shows "code (fst (createBook f r d)) = StatusBadRequest \<and> snd (createBook f r d) = d"
  using assms by (auto simp: createBook_def http_Error_def)

theorem createBook_empty_field_witness:
  "createBook no_faults
     \<lparr>Method = ''POST'', Path = ''/books'',
      Body = Decoded \<lparr>ID = 0, Title = [], Author = ''John Doe'', Year = 2023\<rparr>\<rparr>
     \<lparr>table = [], next_id = 1, log = []\<rparr>
   = (\<lparr>code = 400, payload = Text MissingTitleOrAuthor\<rparr>, \<lparr>table = [], next_id = 1, log = []\<rparr>)"
proof -
  let ?r = "\<lparr>Method = ''POST'', Path = ''/books'',
      Body = Decoded \<lparr>ID = 0, Title = [], Author = ''John Doe'', Year = 2023\<rparr>\<rparr>"
  let ?d = "\<lparr>table = [], next_id = 1, log = []\<rparr>"
  have msg: "payload (fst (createBook no_faults ?r ?d)) = Text MissingTitleOrAuthor"
    by (simp add: createBook_def http_Error_def)
  have "code (fst (createBook no_faults ?r ?d)) = StatusBadRequest \<and> snd (createBook no_faults ?r ?d) = ?d"
    using createBook_empty_field [of ?r no_faults ?d] by simp
  then show ?thesis
    using msg by (cases "createBook no_faults ?r ?d") (cases "fst (createBook no_faults ?r ?d)", simp)
qed

text \<open>What a successful insert has done, and what a create request answered 200 has done.\<close>

lemma db_insert_Inr:
  assumes "db_insert f t a y d = (Inr i, d')"
  shows "i = next_id d \<and> exec_fails f = None \<and> 1 \<le> i \<and> i \<le> 2147483647
     \<and> i \<notin> ID ` set (table d)
     \<and> d' = \<lparr>table = table d @ [\<lparr>ID = i, Title = clip 255 t, Author = clip 255 a, Year = y\<rparr>],
            next_id = i + 1, log = log d @ [InsertBook t a y]\<rparr>"
  using assms
  by (auto simp: db_insert_def sent_def Let_def split: option.splits if_splits dest!: varchar_Some)

lemma db_insert_stored:
  assumes "db_insert f t a y d = (Inr i, d')"
  shows "(\<exists>k. t = clip 255 t @ replicate k (CHR '' '')) \<and> (\<exists>k. a = clip 255 a @ replicate k (CHR '' ''))"
  using assms
  by (auto simp: db_insert_def Let_def split: option.splits if_splits dest: varchar_dropped)

lemma createBook_OK:
  assumes "Body r = Decoded b" and "createBook f r d = (resp, d1)" and "code resp = StatusOK"
  shows "db_insert f (Title b) (Author b) (Year b) d = (Inr (next_id d), d1)
       \<and> payload resp = Json (encode_Book (b\<lparr>ID := next_id d\<rparr>))"
  using assms
  by (auto simp: createBook_def http_Error_def split: if_splits prod.splits sum.splits
           dest: db_insert_Inr)

text \<open>
  Claim C5. A create request whose body decodes, with a title and an author that
  are not empty, is answered, when the insert succeeds, 200 with the JSON object of
  the created book: its \<^verbatim>\<open>id\<close> is the identifier the database generated (the value
  of the sequence), its title, author and year are those of the request.
\<close>

theorem createBook_success:
  assumes "Body r = Decoded b" and "Title b \<noteq> []" and "Author b \<noteq> []"
    and "db_insert f (Title b) (Author b) (Year b) d = (Inr i, d')"
  shows "createBook f r d =
           (\<lparr>code = StatusOK,
             payload = Json (JObject [(''id'', JNumber i), (''title'', JString (Title b)),
                                      (''author'', JString (Author b)), (''year'', JNumber (Year b))])\<rparr>,
            d')
         \<and> i = next_id d"
  using assms db_insert_Inr [OF assms(4)]
  by (simp add: createBook_def encode_Book_def)

theorem createBook_success_witness:
  "createBook no_faults
     \<lparr>Method = ''POST'', Path = ''/books'',
      Body = Decoded \<lparr>ID = 0, Title = ''Golang Book'', Author = ''John Doe'', Year = 2023\<rparr>\<rparr>
     \<lparr>table = [], next_id = 1, log = []\<rparr>
   = (\<lparr>code = 200,
       payload = Json (JObject [(''id'', JNumber 1), (''title'', JString ''Golang Book''),
                                (''author'', JString ''John Doe''), (''year'', JNumber 2023)])\<rparr>,
      \<lparr>table = [\<lparr>ID = 1, Title = ''Golang Book'', Author = ''John Doe'', Year = 2023\<rparr>],
       next_id = 2, log = [InsertBook ''Golang Book'' ''John Doe'' 2023]\<rparr>)"
proof -
  let ?b = "\<lparr>ID = 0, Title = ''Golang Book'', Author = ''John Doe'', Year = 2023\<rparr>"
  let ?r = "\<lparr>Method = ''POST'', Path = ''/books'', Body = Decoded ?b\<rparr>"
  let ?d = "\<lparr>table = [], next_id = 1, log = []\<rparr>"
  let ?d' = "\<lparr>table = [\<lparr>ID = 1, Title = ''Golang Book'', Author = ''John Doe'', Year = 2023\<rparr>],
       next_id = 2, log = [InsertBook ''Golang Book'' ''John Doe'' 2023]\<rparr>"
  have ins: "db_insert no_faults (Title ?b) (Author ?b) (Year ?b) ?d = (Inr 1, ?d')"
    by (simp add: db_insert_def no_faults_def sent_def varchar_short)
  show ?thesis
    using createBook_success [of ?r ?b no_faults ?d 1 ?d', OF _ _ _ ins] by simp
qed





section \<open>Listing the books\<close>

text \<open>
  Claim C1 says that the list handler answers an empty table with 200 and the
  empty JSON array. The handler declares \<^verbatim>\<open>var books []Book\<close>, appends nothing, and
  encodes the nil slice: the body is \<^verbatim>\<open>null\<close>.
\<close>

theorem getAllBooks_empty_table:
  "getAllBooks no_faults \<lparr>Method = ''GET'', Path = ''/books'', Body = DecodeError\<rparr>
     \<lparr>table = [], next_id = 1, log = []\<rparr>
   = (\<lparr>code = 200, payload = Json JNull\<rparr>, \<lparr>table = [], next_id = 1, log = [SelectBooks]\<rparr>)"
  by (simp add: getAllBooks_def db_select_all_def no_faults_def sent_def cursor_def)

text \<open>
  The loop over a cursor whose rows all scan: the slice is nil when there was no
  row, and holds the rows in their order otherwise.
\<close>

lemma scan_rows_all: "scan_rows (map Inr bs) (Slice xs) = Inr (Slice (xs @ bs))"
  by (induction bs arbitrary: xs) simp_all

lemma scan_rows_from_nil:
  "scan_rows (map Inr bs) NilSlice = Inr (if bs = [] then NilSlice else Slice bs)"
  by (cases bs) (simp_all add: scan_rows_all)

lemma enumerate_drop_index: "map (\<lambda>(j, b). g b) (enumerate n xs) = map g xs"
  by (induction xs arbitrary: n) simp_all

lemma cursor_no_scan_fault:
  assumes "scan_fails f = None"
  shows "yields (cursor f bs) = map Inr (case next_fails f of None \<Rightarrow> bs | Some (k, e) \<Rightarrow> take k bs)"
  using assms by (simp add: cursor_def Let_def enumerate_drop_index)

lemma getAllBooks_no_scan_fault:
  assumes "exec_fails f = None" and "scan_fails f = None"
  shows "getAllBooks f r d =
     (\<lparr>code = StatusOK,
       payload = Json (encode_Books
         (let bs = (case next_fails f of None \<Rightarrow> table d | Some (k, e) \<Rightarrow> take k (table d))
          in if bs = [] then NilSlice else Slice bs))\<rparr>,
      sent SelectBooks d)"
  using assms
  by (simp add: getAllBooks_def db_select_all_def cursor_no_scan_fault scan_rows_from_nil sent_def Let_def)

text \<open>
  Claim C10 says that an error which ends the iteration after a successful query
  is never checked, so that the handler answers 200 with a JSON array of the rows
  scanned before the error, and that only a failing query or a failing row scan
  gives 500. That holds but for the array when the error comes before the first
  row, where the slice is still nil (the defect of claim C1). As proved: when the
  query succeeds, no scan fails and \<^verbatim>\<open>rows.Next\<close> stops with an error before row
  \<open>k\<close>, the cursor does hold that error, the handler answers 200, and for \<open>k\<close>
  above 0 the body is the JSON array of exactly the first \<open>k\<close> rows. The handler
  answers 200 or 500, and 500 only when the query or a row scan has failed.
\<close>

theorem getAllBooks_iteration_error:
  "(exec_fails f = None \<and> scan_fails f = None \<and> next_fails f = Some (k, e) \<and> k \<le> length (table d)
      \<longrightarrow> Err (cursor f (table d)) = Some e
          \<and> code (fst (getAllBooks f r d)) = StatusOK
          \<and> (0 < k \<longrightarrow> payload (fst (getAllBooks f r d))
                           = Json (JArray (map encode_Book (take k (table d))))))
   \<and> (code (fst (getAllBooks f r d)) = StatusOK
         \<or> code (fst (getAllBooks f r d)) = StatusInternalServerError)
   \<and> (code (fst (getAllBooks f r d)) = StatusInternalServerError
         \<longrightarrow> exec_fails f \<noteq> None \<or> scan_fails f \<noteq> None)"
proof (intro conjI impI)
  assume a: "exec_fails f = None \<and> scan_fails f = None \<and> next_fails f = Some (k, e)
             \<and> k \<le> length (table d)"
  then show "Err (cursor f (table d)) = Some e"
    by (simp add: cursor_def)
  show "code (fst (getAllBooks f r d)) = StatusOK"
    using a by (simp add: getAllBooks_no_scan_fault)
  assume "0 < k"
  then have "take k (table d) \<noteq> []" using a by auto
  then show "payload (fst (getAllBooks f r d)) = Json (JArray (map encode_Book (take k (table d))))"
    using a by (simp add: getAllBooks_no_scan_fault)
next
  show "code (fst (getAllBooks f r d)) = StatusOK
         \<or> code (fst (getAllBooks f r d)) = StatusInternalServerError"
    by (simp add: getAllBooks_def db_select_all_def http_Error_def Let_def
          split: option.splits sum.splits)
next
  assume five: "code (fst (getAllBooks f r d)) = StatusInternalServerError"
  show "exec_fails f \<noteq> None \<or> scan_fails f \<noteq> None"
  proof (rule ccontr)
    assume "\<not> (exec_fails f \<noteq> None \<or> scan_fails f \<noteq> None)"
    then have "exec_fails f = None" and "scan_fails f = None"
      by blast+
    then have "code (fst (getAllBooks f r d)) = StatusOK"
      by (simp add: getAllBooks_no_scan_fault)
    with five show False by simp
  qed
qed

theorem getAllBooks_iteration_error_witness:
  "getAllBooks \<lparr>exec_fails = None, next_fails = Some (1, ''connection reset''), scan_fails = None\<rparr>
     \<lparr>Method = ''GET'', Path = ''/books'', Body = DecodeError\<rparr>
     \<lparr>table = [\<lparr>ID = 1, Title = ''Golang Book'', Author = ''John Doe'', Year = 2023\<rparr>,
               \<lparr>ID = 2, Title = ''Another'', Author = ''Jane Roe'', Year = 1999\<rparr>],
      next_id = 3, log = []\<rparr>
   = (\<lparr>code = 200,
       payload = Json (JArray [JObject [(''id'', JNumber 1), (''title'', JString ''Golang Book''),
                                        (''author'', JString ''John Doe''), (''year'', JNumber 2023)]])\<rparr>,
      \<lparr>table = [\<lparr>ID = 1, Title = ''Golang Book'', Author = ''John Doe'', Year = 2023\<rparr>,
                \<lparr>ID = 2, Title = ''Another'', Author = ''Jane Roe'', Year = 1999\<rparr>],
       next_id = 3, log = [SelectBooks]\<rparr>)"
proof -
  let ?f = "\<lparr>exec_fails = None, next_fails = Some (1, ''connection reset''), scan_fails = None\<rparr>"
  let ?r = "\<lparr>Method = ''GET'', Path = ''/books'', Body = DecodeError\<rparr>"
  let ?d = "\<lparr>table = [\<lparr>ID = 1, Title = ''Golang Book'', Author = ''John Doe'', Year = 2023\<rparr>,
               \<lparr>ID = 2, Title = ''Another'', Author = ''Jane Roe'', Year = 1999\<rparr>],
      next_id = 3, log = []\<rparr>"
  have db: "snd (getAllBooks ?f ?r ?d) = sent SelectBooks ?d"
    by (simp add: getAllBooks_def db_select_all_def cursor_def sent_def)
  have "code (fst (getAllBooks ?f ?r ?d)) = StatusOK
      \<and> payload (fst (getAllBooks ?f ?r ?d)) = Json (JArray (map encode_Book (take 1 (table ?d))))"
    using getAllBooks_iteration_error [of ?f 1 "''connection reset''" ?d ?r] by simp
  then show ?thesis
    using db by (cases "getAllBooks ?f ?r ?d") (auto simp: encode_Book_def sent_def)
qed

text \<open>
  The counterexample to claim C10 as stated: the iteration fails before the first
  row; the answer is 200, and its body is \<^verbatim>\<open>null\<close>, not an array.
\<close>

theorem getAllBooks_iteration_error_at_start:
  "getAllBooks \<lparr>exec_fails = None, next_fails = Some (0, ''connection reset''), scan_fails = None\<rparr>
     \<lparr>Method = ''GET'', Path = ''/books'', Body = DecodeError\<rparr>
     \<lparr>table = [\<lparr>ID = 1, Title = ''Golang Book'', Author = ''John Doe'', Year = 2023\<rparr>],
      next_id = 2, log = []\<rparr>
   = (\<lparr>code = 200, payload = Json JNull\<rparr>,
      \<lparr>table = [\<lparr>ID = 1, Title = ''Golang Book'', Author = ''John Doe'', Year = 2023\<rparr>],
       next_id = 2, log = [SelectBooks]\<rparr>)
   \<and> Json JNull \<noteq> Json (JArray [])"
  by (simp add: getAllBooks_def db_select_all_def cursor_def sent_def)

section \<open>Updating a book\<close>

lemma db_update_result:
  "db_update f t a y i d =
     (if exec_fails f \<noteq> None then (Inl (DriverError (the (exec_fails f))), sent (UpdateBook t a y i) d)
      else if i \<notin> ID ` set (table d) then (Inr 0, sent (UpdateBook t a y i) d)
      else if varchar 255 t = None \<or> varchar 255 a = None
      then (Inl (DriverError ''value too long for type character varying(255)''),
            sent (UpdateBook t a y i) d)
      else (Inr (length (filter (\<lambda>b. ID b = i) (table d))),
            (sent (UpdateBook t a y i) d)
              \<lparr>table := map (\<lambda>b. if ID b = i
                                   then b\<lparr>Title := clip 255 t, Author := clip 255 a, Year := y\<rparr>
                                   else b) (table d)\<rparr>))"
proof -
  have hit: "(filter (\<lambda>b. ID b = i) (table d) = []) = (i \<notin> ID ` set (table d))"
    by (auto simp: filter_empty_conv)
  show ?thesis
    using hit
    by (auto simp: db_update_def sent_def Let_def split: option.splits dest!: varchar_Some)
qed




text \<open>
  Claim C3 says that an update of an identifier that no row has is answered 404
  and leaves the table unchanged. The handler tests the error of \<^verbatim>\<open>ExecContext\<close>
  first and answers 500 when the statement fails, so the claim holds as follows:
  for an identifier that parses and that no row has, and a body that decodes, the
  table and the sequence are the same before and after the request, and the answer
  is 404 when the statement returns no error and 500 when it returns one.
\<close>

theorem updateBookByID_unknown_id:
  assumes "parseIDFromURL (Path r) = Some (Inr i)" and "Body r = Decoded b"
    and "i \<notin> ID ` set (table d)"
  shows "\<exists>resp d'. updateBookByID f r d = Some (resp, d')
     \<and> table d' = table d \<and> next_id d' = next_id d
     \<and> (exec_fails f = None \<longrightarrow> code resp = StatusNotFound)
     \<and> (exec_fails f \<noteq> None \<longrightarrow> code resp = StatusInternalServerError)"
  using assms
  by (auto simp: updateBookByID_def db_update_result sent_def http_Error_def)

theorem updateBookByID_unknown_id_witness:
  "updateBookByID no_faults
     \<lparr>Method = ''PUT'', Path = ''/books/7'',
      Body = Decoded \<lparr>ID = 0, Title = ''Updated Title'', Author = ''Another Author'', Year = 2025\<rparr>\<rparr>
     \<lparr>table = [\<lparr>ID = 1, Title = ''Golang Book'', Author = ''John Doe'', Year = 2023\<rparr>],
      next_id = 2, log = []\<rparr>
   = Some (\<lparr>code = 404, payload = Text NoBookWithID\<rparr>,
      \<lparr>table = [\<lparr>ID = 1, Title = ''Golang Book'', Author = ''John Doe'', Year = 2023\<rparr>],
       next_id = 2, log = [UpdateBook ''Updated Title'' ''Another Author'' 2025 7]\<rparr>)"
proof -
  let ?b = "\<lparr>ID = 0, Title = ''Updated Title'', Author = ''Another Author'', Year = 2025\<rparr>"
  let ?r = "\<lparr>Method = ''PUT'', Path = ''/books/7'', Body = Decoded ?b\<rparr>"
  let ?d = "\<lparr>table = [\<lparr>ID = 1, Title = ''Golang Book'', Author = ''John Doe'', Year = 2023\<rparr>],
      next_id = 2, log = []\<rparr>"
  have p: "parseIDFromURL (Path ?r) = Some (Inr 7)"
    by (simp add: parseIDFromURL_def splitPath_def scan_defs)
  have "\<exists>resp d'. updateBookByID no_faults ?r ?d = Some (resp, d')
     \<and> table d' = table ?d \<and> next_id d' = next_id ?d
     \<and> (exec_fails no_faults = None \<longrightarrow> code resp = StatusNotFound)
     \<and> (exec_fails no_faults \<noteq> None \<longrightarrow> code resp = StatusInternalServerError)"
    using updateBookByID_unknown_id [of ?r 7 ?b ?d no_faults] p by simp
  then show ?thesis
    using p
    by (auto simp: updateBookByID_def db_update_def sent_def http_Error_def Let_def no_faults_def)
qed

text \<open>
  The counterexample to claim C3 as stated: the identifier 7 parses, no row has
  it, the body decodes, and the statement runs into the deadline the handler has
  set: the answer is 500.
\<close>

theorem updateBookByID_unknown_id_counterexample:
  "parseIDFromURL ''/books/7'' = Some (Inr 7)
   \<and> 7 \<notin> ID ` set (table \<lparr>table = [], next_id = 1, log = []\<rparr>)
   \<and> map_option (code \<circ> fst)
       (updateBookByID \<lparr>exec_fails = Some ''context deadline exceeded'', next_fails = None, scan_fails = None\<rparr>
         \<lparr>Method = ''PUT'', Path = ''/books/7'',
          Body = Decoded \<lparr>ID = 0, Title = ''Updated Title'', Author = ''Another Author'', Year = 2025\<rparr>\<rparr>
         \<lparr>table = [], next_id = 1, log = []\<rparr>) = Some 500"
proof -
  have p: "parseIDFromURL ''/books/7'' = Some (Inr 7)"
    by (simp add: parseIDFromURL_def splitPath_def scan_defs)
  then show ?thesis
    by (simp add: updateBookByID_def db_update_def sent_def http_Error_def)
qed

section \<open>Reading back a created book\<close>

lemma find_filter_Cons:
  "filter P xs = y # ys \<Longrightarrow> find P xs = Some y"
  by (induction xs) (auto split: if_splits)

lemma encode_Book_ID: "encode_Book c = encode_Book c' \<Longrightarrow> ID c = ID c'"
  by (simp add: encode_Book_def)

text \<open>
  Claim C4 says that after a successful create, a get with the identifier returned
  answers 200 with the title, author and year submitted, as long as that identifier
  was not updated or deleted in between. The get handler answers 500 when its
  query fails, and the columns keep 255 characters of a title or an author, so the
  claim holds as follows. Let a create request whose body decodes to \<open>b\<close> be
  answered 200 with the book \<open>c\<close>, and let the rows with the identifier of \<open>c\<close>
  be the same in a later database as right after the create. A get request for
  \<^verbatim>\<open>/books/\<close> followed by the decimal numeral of that identifier is then answered 500
  when its query returns an error, and otherwise 200 with that identifier, the year
  of \<open>b\<close>, and the first 255 characters of the title and of the author of \<open>b\<close>.
  What the columns have dropped of them is spaces only, and nothing when they have
  at most 255 characters.
\<close>

theorem get_after_create:
  assumes "Body r = Decoded b"
    and "createBook f r d = (resp, d1)" and "code resp = StatusOK"
    and "payload resp = Json (encode_Book c)"
    and "filter (\<lambda>row. ID row = ID c) (table d2) = filter (\<lambda>row. ID row = ID c) (table d1)"
    and "Path r2 = book_path (ID c)"
  shows "(exec_fails f2 = None \<longrightarrow>
            getBookByID f2 r2 d2 =
              Some (\<lparr>code = StatusOK,
                     payload = Json (encode_Book \<lparr>ID = ID c, Title = clip 255 (Title b),
                                                  Author = clip 255 (Author b), Year = Year b\<rparr>)\<rparr>,
                    sent (SelectBook (ID c)) d2))
       \<and> (exec_fails f2 \<noteq> None \<longrightarrow>
            map_option (code \<circ> fst) (getBookByID f2 r2 d2) = Some StatusInternalServerError)
       \<and> (\<exists>k. Title b = clip 255 (Title b) @ replicate k (CHR '' ''))
       \<and> (\<exists>k. Author b = clip 255 (Author b) @ replicate k (CHR '' ''))
       \<and> (char_count (Title b) \<le> 255 \<longrightarrow> clip 255 (Title b) = Title b)
       \<and> (char_count (Author b) \<le> 255 \<longrightarrow> clip 255 (Author b) = Author b)"
proof -
  let ?i = "next_id d"
  let ?new = "\<lparr>ID = ?i, Title = clip 255 (Title b), Author = clip 255 (Author b), Year = Year b\<rparr>"
  have ins: "db_insert f (Title b) (Author b) (Year b) d = (Inr ?i, d1)"
    and pay: "payload resp = Json (encode_Book (b\<lparr>ID := ?i\<rparr>))"
    using createBook_OK [OF assms(1,2,3)] by simp_all
  have i: "ID c = ?i"
    using pay assms(4) encode_Book_ID [of c "b\<lparr>ID := ?i\<rparr>"] by simp
  have range: "1 \<le> ?i" "?i \<le> 2147483647" and fresh: "?i \<notin> ID ` set (table d)"
    and d1: "table d1 = table d @ [?new]"
    using db_insert_Inr [OF ins] by simp_all
  have "filter (\<lambda>row. ID row = ?i) (table d) = []"
    using fresh by (simp add: filter_empty_conv) (metis imageI)
  then have "filter (\<lambda>row. ID row = ?i) (table d2) = [?new]"
    using assms(5) i d1 by simp
  then have found: "find (\<lambda>row. ID row = ?i) (table d2) = Some ?new"
    by (rule find_filter_Cons)
  have "is_int64 ?i"
    using range by (simp add: is_int64_def)
  then have p: "parseIDFromURL (Path r2) = Some (Inr ?i)"
    using parseIDFromURL_book_path [of ?i] assms(6) i by simp
  have get: "(exec_fails f2 = None \<longrightarrow>
            getBookByID f2 r2 d2 =
              Some (\<lparr>code = StatusOK,
                     payload = Json (encode_Book \<lparr>ID = ID c, Title = clip 255 (Title b),
                                                  Author = clip 255 (Author b), Year = Year b\<rparr>)\<rparr>,
                    sent (SelectBook (ID c)) d2))
       \<and> (exec_fails f2 \<noteq> None \<longrightarrow>
            map_option (code \<circ> fst) (getBookByID f2 r2 d2) = Some StatusInternalServerError)"
    using p found i
    by (auto simp: getBookByID_def db_select_def sent_def http_Error_def Let_def)
  show ?thesis
    using get db_insert_stored [OF ins] clip_fits [of "Title b" 255] clip_fits [of "Author b" 255]
    by blast
qed

theorem get_after_create_witness:
  "getBookByID no_faults \<lparr>Method = ''GET'', Path = ''/books/1'', Body = DecodeError\<rparr>
     \<lparr>table = [\<lparr>ID = 1, Title = ''Golang Book'', Author = ''John Doe'', Year = 2023\<rparr>,
               \<lparr>ID = 2, Title = ''Another'', Author = ''Jane Roe'', Year = 1999\<rparr>],
      next_id = 3,
      log = [InsertBook ''Golang Book'' ''John Doe'' 2023, InsertBook ''Another'' ''Jane Roe'' 1999]\<rparr>
   = Some (\<lparr>code = 200,
            payload = Json (JObject [(''id'', JNumber 1), (''title'', JString ''Golang Book''),
                                     (''author'', JString ''John Doe''), (''year'', JNumber 2023)])\<rparr>,
      \<lparr>table = [\<lparr>ID = 1, Title = ''Golang Book'', Author = ''John Doe'', Year = 2023\<rparr>,
                \<lparr>ID = 2, Title = ''Another'', Author = ''Jane Roe'', Year = 1999\<rparr>],
       next_id = 3,
       log = [InsertBook ''Golang Book'' ''John Doe'' 2023, InsertBook ''Another'' ''Jane Roe'' 1999,
              SelectBook 1]\<rparr>)"
proof -
  let ?b = "\<lparr>ID = 0, Title = ''Golang Book'', Author = ''John Doe'', Year = 2023\<rparr>"
  let ?c = "\<lparr>ID = 1, Title = ''Golang Book'', Author = ''John Doe'', Year = 2023\<rparr>"
  let ?r = "\<lparr>Method = ''POST'', Path = ''/books'', Body = Decoded ?b\<rparr>"
  let ?d = "\<lparr>table = [], next_id = 1, log = []\<rparr>"
  let ?resp = "\<lparr>code = 200, payload = Json (encode_Book ?c)\<rparr>"
  let ?d1 = "\<lparr>table = [?c], next_id = 2, log = [InsertBook ''Golang Book'' ''John Doe'' 2023]\<rparr>"
  let ?d2 = "\<lparr>table = [?c, \<lparr>ID = 2, Title = ''Another'', Author = ''Jane Roe'', Year = 1999\<rparr>],
      next_id = 3,
      log = [InsertBook ''Golang Book'' ''John Doe'' 2023, InsertBook ''Another'' ''Jane Roe'' 1999]\<rparr>"
  let ?r2 = "\<lparr>Method = ''GET'', Path = ''/books/1'', Body = DecodeError\<rparr>"
  have created: "createBook no_faults ?r ?d = (?resp, ?d1)"
    by (simp add: createBook_def db_insert_def no_faults_def sent_def varchar_short)
  have path: "Path ?r2 = book_path (ID ?c)"
    by (simp add: book_path_def decimal_def decimal_nat.simps [of 1] decimal_nat.simps [of "Suc 0"]
          digit_char_def decimalDigits_def)
  have kept: "filter (\<lambda>row. ID row = ID ?c) (table ?d2) = filter (\<lambda>row. ID row = ID ?c) (table ?d1)"
    by simp
  have fits: "clip 255 ''Golang Book'' = ''Golang Book''" "clip 255 ''John Doe'' = ''John Doe''"
    by (simp_all add: clip_fits char_count_def)
  show ?thesis
    using get_after_create [of ?r ?b no_faults ?d ?resp ?d1 ?c ?d2 ?r2 no_faults, OF _ created _ _ kept path]
      fits
    by (simp add: encode_Book_def no_faults_def sent_def)
qed

text \<open>
  The counterexamples to claim C4 as stated. The create succeeds with identifier
  1, nothing updates or deletes the row, and the query of the get request runs
  into the deadline: the answer is 500, not 200. And a title of 255 letters and
  one space is created with 200, the response showing all of it, and read back
  without the space.
\<close>

theorem get_after_create_differs:
  "createBook no_faults
     \<lparr>Method = ''POST'', Path = ''/books'',
      Body = Decoded \<lparr>ID = 0, Title = ''Golang Book'', Author = ''John Doe'', Year = 2023\<rparr>\<rparr>
     \<lparr>table = [], next_id = 1, log = []\<rparr>
   = (\<lparr>code = 200,
       payload = Json (encode_Book \<lparr>ID = 1, Title = ''Golang Book'', Author = ''John Doe'', Year = 2023\<rparr>)\<rparr>,
      \<lparr>table = [\<lparr>ID = 1, Title = ''Golang Book'', Author = ''John Doe'', Year = 2023\<rparr>],
       next_id = 2, log = [InsertBook ''Golang Book'' ''John Doe'' 2023]\<rparr>)
   \<and> getBookByID \<lparr>exec_fails = Some ''context deadline exceeded'', next_fails = None, scan_fails = None\<rparr>
       \<lparr>Method = ''GET'', Path = ''/books/1'', Body = DecodeError\<rparr>
       \<lparr>table = [\<lparr>ID = 1, Title = ''Golang Book'', Author = ''John Doe'', Year = 2023\<rparr>],
        next_id = 2, log = [InsertBook ''Golang Book'' ''John Doe'' 2023]\<rparr>
     = Some (\<lparr>code = 500, payload = Text (SelectFailed (DriverError ''context deadline exceeded''))\<rparr>,
        \<lparr>table = [\<lparr>ID = 1, Title = ''Golang Book'', Author = ''John Doe'', Year = 2023\<rparr>],
         next_id = 2, log = [InsertBook ''Golang Book'' ''John Doe'' 2023, SelectBook 1]\<rparr>)
   \<and> createBook no_faults
     \<lparr>Method = ''POST'', Path = ''/books'',
      Body = Decoded \<lparr>ID = 0, Title = replicate 255 (CHR ''a'') @ '' '', Author = ''John Doe'',
                      Year = 2023\<rparr>\<rparr>
     \<lparr>table = [], next_id = 1, log = []\<rparr>
   = (\<lparr>code = 200,
       payload = Json (encode_Book \<lparr>ID = 1, Title = replicate 255 (CHR ''a'') @ '' '',
                                    Author = ''John Doe'', Year = 2023\<rparr>)\<rparr>,
      \<lparr>table = [\<lparr>ID = 1, Title = replicate 255 (CHR ''a''), Author = ''John Doe'', Year = 2023\<rparr>],
       next_id = 2, log = [InsertBook (replicate 255 (CHR ''a'') @ '' '') ''John Doe'' 2023]\<rparr>)
   \<and> getBookByID no_faults
       \<lparr>Method = ''GET'', Path = ''/books/1'', Body = DecodeError\<rparr>
       \<lparr>table = [\<lparr>ID = 1, Title = replicate 255 (CHR ''a''), Author = ''John Doe'', Year = 2023\<rparr>],
        next_id = 2, log = [InsertBook (replicate 255 (CHR ''a'') @ '' '') ''John Doe'' 2023]\<rparr>
     = Some (\<lparr>code = 200,
              payload = Json (encode_Book \<lparr>ID = 1, Title = replicate 255 (CHR ''a''),
                                           Author = ''John Doe'', Year = 2023\<rparr>)\<rparr>,
        \<lparr>table = [\<lparr>ID = 1, Title = replicate 255 (CHR ''a''), Author = ''John Doe'', Year = 2023\<rparr>],
         next_id = 2,
         log = [InsertBook (replicate 255 (CHR ''a'') @ '' '') ''John Doe'' 2023, SelectBook 1]\<rparr>)
   \<and> replicate 255 (CHR ''a'') \<noteq> replicate 255 (CHR ''a'') @ '' ''"
proof -
  have p: "parseIDFromURL ''/books/1'' = Some (Inr 1)"
    by (simp add: parseIDFromURL_def splitPath_def scan_defs)
  have long: "varchar 255 (replicate 255 (CHR ''a'') @ '' '') = Some (replicate 255 (CHR ''a''))"
    by (rule varchar_trailing_space) (simp add: is_cont_def)
  have nonempty: "replicate 255 (CHR ''a'') @ '' '' \<noteq> []"
    by simp
  from p long nonempty show ?thesis
    by (simp add: createBook_def db_insert_def no_faults_def sent_def getBookByID_def db_select_def
          http_Error_def varchar_short)
qed

end
